theory Spec2Isabelle
  imports Main "HOL-Library.Sublist"
begin

section \<open>Data model of pkg/syncer\<close>

text \<open>
  The syncer reconciles IMDb lists and ratings (the source) with Trakt (the mirror).
  Only \<^verbatim>\<open>pkg/syncer/syncer.go\<close> is available; the packages \<^verbatim>\<open>entities\<close> and
  \<^verbatim>\<open>client\<close> are not. Their struct types are declared here with the fields that
  syncer.go reads and writes. Field names that occur in several Go structs are told
  apart by a prefix: \<open>ItemId\<close> is \<^verbatim>\<open>ImdbItem.Id\<close>, \<open>IdsImdb\<close> is \<^verbatim>\<open>TraktItemSpec.Ids.Imdb\<close>,
  \<open>SpecRating\<close> is \<^verbatim>\<open>TraktItemSpec.Rating\<close>, \<open>TraktRating\<close> is \<^verbatim>\<open>TraktItem.Rating\<close>,
  \<open>IdsSlug\<close> is \<^verbatim>\<open>TraktList.Ids.Slug\<close>.
\<close>

text \<open>A \<^verbatim>\<open>time.Time\<close> is kept as its instant (nanoseconds since the epoch).\<close>

type_synonym time = int

text \<open>The type tag of an item: movie, show or episode.\<close>

datatype ItemType = TypeMovie | TypeShow | TypeEpisode

record ImdbItem =
  ItemId :: string
  TitleType :: ItemType
  Rating :: "int option"
  RatingDate :: time

record TraktItemSpec =
  IdsImdb :: string
  RatedAt :: "string option"
  SpecRating :: "int option"

record TraktItem =
  Type :: string
  TraktRating :: int
  Movie :: TraktItemSpec
  Show :: TraktItemSpec
  Episode :: TraktItemSpec

text \<open>An entry of the mirror's list index, \<^verbatim>\<open>entities.TraktList\<close>.\<close>

record TraktListEntry =
  Name :: string
  IdsSlug :: string

record DataPair =
  ImdbList :: "ImdbItem list"
  ImdbListId :: string
  ImdbListName :: string
  TraktList :: "TraktItem list"
  TraktListId :: string
  IsWatchlist :: bool

text \<open>The zero value of a struct, as Go gives to fields that a literal leaves out.\<close>

definition emptyDataPair :: DataPair where
  "emptyDataPair = \<lparr>ImdbList = [], ImdbListId = [], ImdbListName = [], TraktList = [],
     TraktListId = [], IsWatchlist = False\<rparr>"

definition emptySpec :: TraktItemSpec where
  "emptySpec = \<lparr>IdsImdb = [], RatedAt = None, SpecRating = None\<rparr>"

text \<open>
  Modelled from the spec: the constants \<^verbatim>\<open>entities.TraktItemTypeMovie\<close>,
  \<^verbatim>\<open>TraktItemTypeShow\<close> and \<^verbatim>\<open>TraktItemTypeEpisode\<close> are not in syncer.go; the
  spec names the type tags movie, show and episode. \<^verbatim>\<open>TraktItem.Type\<close> is a Go string,
  so an item can carry any other tag as well.
\<close>

definition TraktItemTypeMovie :: string where
  "TraktItemTypeMovie = ''movie''"

definition TraktItemTypeShow :: string where
  "TraktItemTypeShow = ''show''"

definition TraktItemTypeEpisode :: string where
  "TraktItemTypeEpisode = ''episode''"

subsection \<open>Errors\<close>

text \<open>
  \<open>ApiError\<close> carries the status code of a remote failure, \<open>Wrapped\<close> is
  \<^verbatim>\<open>fmt.Errorf("...: %w", err)\<close> with the text before the colon, and
  \<open>MissingEnvironmentVariablesError\<close> carries the names of the unset variables.
\<close>

datatype error =
    ApiError int
  | ClientError string
  | Wrapped string error
  | MissingEnvironmentVariablesError "string list"

text \<open>\<^verbatim>\<open>errors.As(err, &apiError)\<close>: the first \<open>ApiError\<close> in the chain of wrapped errors.\<close>

fun asApiError :: "error \<Rightarrow> int option" where
  "asApiError (ApiError code) = Some code"
| "asApiError (Wrapped _ e) = asApiError e"
| "asApiError _ = None"

definition StatusNotFound :: int where
  "StatusNotFound = 404"

definition isNotFound :: "error \<Rightarrow> bool" where
  "isNotFound err = (case asApiError err of Some code \<Rightarrow> code = StatusNotFound | None \<Rightarrow> False)"

subsection \<open>The two clients and the remote calls\<close>

text \<open>
  The clients are interfaces. A method is a function on the state \<open>'w\<close> of the remote
  services: it returns its Go result and the new remote state. A \<^verbatim>\<open>(value, error)\<close>
  result whose value is only read when the error is nil is a sum; an \<^verbatim>\<open>error\<close> result
  is an option. \<open>ListItemsGet\<close> of the mirror keeps both components, because hydrate
  stores the returned slice on the not-found path as well.
\<close>

record 'w ImdbClient =
  ImdbListItemsGet :: "string \<Rightarrow> 'w \<Rightarrow> (error + string \<times> ImdbItem list) \<times> 'w"
  ImdbListsScrape :: "'w \<Rightarrow> (error + DataPair list) \<times> 'w"
  ImdbWatchlistGet :: "'w \<Rightarrow> (error + string \<times> ImdbItem list) \<times> 'w"
  ImdbRatingsGet :: "'w \<Rightarrow> (error + ImdbItem list) \<times> 'w"

record 'w TraktClient =
  WatchlistItemsGet :: "'w \<Rightarrow> (error + TraktItem list) \<times> 'w"
  ListItemsGet :: "string \<Rightarrow> 'w \<Rightarrow> (TraktItem list \<times> error option) \<times> 'w"
  ListAdd :: "string \<Rightarrow> string \<Rightarrow> 'w \<Rightarrow> error option \<times> 'w"
  ListsGet :: "'w \<Rightarrow> (error + TraktListEntry list) \<times> 'w"
  ListRemove :: "string \<Rightarrow> 'w \<Rightarrow> error option \<times> 'w"
  ListItemsAdd :: "string \<Rightarrow> TraktItem list \<Rightarrow> 'w \<Rightarrow> error option \<times> 'w"
  ListItemsRemove :: "string \<Rightarrow> TraktItem list \<Rightarrow> 'w \<Rightarrow> error option \<times> 'w"
  WatchlistItemsAdd :: "TraktItem list \<Rightarrow> 'w \<Rightarrow> error option \<times> 'w"
  WatchlistItemsRemove :: "TraktItem list \<Rightarrow> 'w \<Rightarrow> error option \<times> 'w"
  RatingsGet :: "'w \<Rightarrow> (error + TraktItem list) \<times> 'w"
  RatingsAdd :: "TraktItem list \<Rightarrow> 'w \<Rightarrow> error option \<times> 'w"
  RatingsRemove :: "TraktItem list \<Rightarrow> 'w \<Rightarrow> error option \<times> 'w"
  HistoryGet :: "string \<Rightarrow> string \<Rightarrow> 'w \<Rightarrow> (error + TraktItem list) \<times> 'w"
  HistoryAdd :: "TraktItem list \<Rightarrow> 'w \<Rightarrow> error option \<times> 'w"
  HistoryRemove :: "TraktItem list \<Rightarrow> 'w \<Rightarrow> error option \<times> 'w"

record ImdbConfig =
  CookieAtMain :: string
  CookieUbidMain :: string
  UserId :: string

record TraktConfig =
  ClientId :: string
  ClientSecret :: string
  Username :: string
  Password :: string

text \<open>One constructor per client operation the syncer invokes, with its arguments.\<close>

datatype call =
    NewImdbClientCall ImdbConfig
  | NewTraktClientCall TraktConfig
  | ImdbListItemsGetCall string
  | ImdbListsScrapeCall
  | ImdbWatchlistGetCall
  | ImdbRatingsGetCall
  | WatchlistItemsGetCall
  | ListItemsGetCall string
  | ListAddCall string string
  | ListsGetCall
  | ListRemoveCall string
  | ListItemsAddCall string "TraktItem list"
  | ListItemsRemoveCall string "TraktItem list"
  | WatchlistItemsAddCall "TraktItem list"
  | WatchlistItemsRemoveCall "TraktItem list"
  | RatingsGetCall
  | RatingsAddCall "TraktItem list"
  | RatingsRemoveCall "TraktItem list"
  | HistoryGetCall string string
  | HistoryAddCall "TraktItem list"
  | HistoryRemoveCall "TraktItem list"

text \<open>
  The syncer: its two clients, \<^verbatim>\<open>user.lists\<close> and \<^verbatim>\<open>user.ratings\<close>, the state of the
  remote services, and the sequence of client calls issued so far. The last field is
  not a field of the Go struct: it records, in order, every call the code makes, so that
  a statement about which calls a run issues can be written down.
\<close>

record 'w Syncer =
  imdbClient :: "'w ImdbClient"
  traktClient :: "'w TraktClient"
  user_lists :: "DataPair list"
  user_ratings :: DataPair
  world :: 'w
  calls :: "call list"

text \<open>Invoking a client operation: run it on the remote state and record the call.\<close>

definition invoke :: "call \<Rightarrow> ('w \<Rightarrow> 'r \<times> 'w) \<Rightarrow> 'w Syncer \<Rightarrow> 'r \<times> 'w Syncer" where
  "invoke c op s = (case op (world s) of
     (r, w') \<Rightarrow> (r, s\<lparr>world := w', calls := calls s @ [c]\<rparr>))"

section \<open>Configuration\<close>

definition EnvVarKeyCookieAtMain :: string where
  "EnvVarKeyCookieAtMain = ''IMDB_COOKIE_AT_MAIN''"

definition EnvVarKeyCookieUbidMain :: string where
  "EnvVarKeyCookieUbidMain = ''IMDB_COOKIE_UBID_MAIN''"

definition EnvVarKeyListIds :: string where
  "EnvVarKeyListIds = ''IMDB_LIST_IDS''"

definition EnvVarKeyUserId :: string where
  "EnvVarKeyUserId = ''IMDB_USER_ID''"

definition EnvVarKeyClientId :: string where
  "EnvVarKeyClientId = ''TRAKT_CLIENT_ID''"

definition EnvVarKeyClientSecret :: string where
  "EnvVarKeyClientSecret = ''TRAKT_CLIENT_SECRET''"

definition EnvVarKeyPassword :: string where
  "EnvVarKeyPassword = ''TRAKT_PASSWORD''"

definition EnvVarKeyUsername :: string where
  "EnvVarKeyUsername = ''TRAKT_USERNAME''"

text \<open>The eight keys of the const block, in the order of their declaration.\<close>

definition recognisedEnvVarKeys :: "string list" where
  "recognisedEnvVarKeys = [EnvVarKeyCookieAtMain, EnvVarKeyCookieUbidMain, EnvVarKeyListIds,
     EnvVarKeyUserId, EnvVarKeyClientId, EnvVarKeyClientSecret, EnvVarKeyPassword,
     EnvVarKeyUsername]"

text \<open>
  The process environment is a map from names to values: \<^verbatim>\<open>os.LookupEnv\<close> is the map
  itself, \<^verbatim>\<open>os.Getenv\<close> gives the empty string for an unset name.
\<close>

type_synonym env = "string \<rightharpoonup> string"

definition Getenv :: "env \<Rightarrow> string \<Rightarrow> string" where
  "Getenv e k = (case e k of None \<Rightarrow> [] | Some v \<Rightarrow> v)"

definition requiredEnvVarKeys :: "string list" where
  "requiredEnvVarKeys = [EnvVarKeyListIds, EnvVarKeyCookieAtMain, EnvVarKeyCookieUbidMain,
     EnvVarKeyClientId, EnvVarKeyClientSecret, EnvVarKeyUsername, EnvVarKeyPassword]"

text \<open>The loop of validateEnvVars: append every key that \<^verbatim>\<open>os.LookupEnv\<close> does not find.\<close>

fun collectMissing :: "env \<Rightarrow> string list \<Rightarrow> string list \<Rightarrow> string list" where
  "collectMissing e [] missingEnvVars = missingEnvVars"
| "collectMissing e (k # ks) missingEnvVars =
     (if e k = None then collectMissing e ks (missingEnvVars @ [k])
      else collectMissing e ks missingEnvVars)"

definition validateEnvVars :: "env \<Rightarrow> error option" where
  "validateEnvVars e =
     (let missingEnvVars = collectMissing e requiredEnvVarKeys []
      in if length missingEnvVars > 0
         then Some (MissingEnvironmentVariablesError missingEnvVars)
         else None)"

text \<open>
  \<^verbatim>\<open>strings.Split(s, ",")\<close>: the pieces of \<open>s\<close> between the commas, one more than there
  are commas. \<^verbatim>\<open>strings.ReplaceAll(s, " ", "")\<close>: \<open>s\<close> without its space bytes.
\<close>

fun Split_comma :: "string \<Rightarrow> string list" where
  "Split_comma [] = [[]]"
| "Split_comma (c # cs) =
     (if c = CHR '','' then [] # Split_comma cs
      else (case Split_comma cs of
              [] \<Rightarrow> [[c]]
            | piece # pieces \<Rightarrow> (c # piece) # pieces))"

definition ReplaceAll_space :: "string \<Rightarrow> string" where
  "ReplaceAll_space s = filter (\<lambda>c. c \<noteq> CHR '' '') s"

text \<open>The loop of NewSyncer that seeds \<^verbatim>\<open>user.lists\<close> from the identifiers.\<close>

fun seedLists :: "string list \<Rightarrow> DataPair list \<Rightarrow> DataPair list" where
  "seedLists [] userLists = userLists"
| "seedLists (imdbListId # imdbListIds) userLists =
     seedLists imdbListIds
       (userLists @ [emptyDataPair\<lparr>ImdbListId := ReplaceAll_space imdbListId\<rparr>])"

text \<open>
  A fatal log entry ends the process (\<^verbatim>\<open>logger.Fatal\<close>): the message and the error,
  together with the remote state and the calls issued up to that point.
\<close>

type_synonym 'w exit = "(string \<times> error) \<times> 'w \<times> call list"

text \<open>
  NewSyncer. The two client constructors belong to the absent package \<^verbatim>\<open>client\<close> and
  are parameters; they may talk to the remote services.
\<close>

definition NewSyncer ::
  "env \<Rightarrow> (ImdbConfig \<Rightarrow> 'w \<Rightarrow> (error + 'w ImdbClient) \<times> 'w) \<Rightarrow>
   (TraktConfig \<Rightarrow> 'w \<Rightarrow> (error + 'w TraktClient) \<times> 'w) \<Rightarrow> 'w \<Rightarrow> 'w exit + 'w Syncer" where
  "NewSyncer e NewImdbClient NewTraktClient w =
     (case validateEnvVars e of
        Some err \<Rightarrow> Inl ((''failure validating environment variables'', err), w, [])
      | None \<Rightarrow>
         (let imdbConfig = \<lparr>CookieAtMain = Getenv e EnvVarKeyCookieAtMain,
                CookieUbidMain = Getenv e EnvVarKeyCookieUbidMain,
                UserId = Getenv e EnvVarKeyUserId\<rparr>
          in case NewImdbClient imdbConfig w of
            (Inl err, w1) \<Rightarrow>
              Inl ((''failure initialising imdb client'', err), w1, [NewImdbClientCall imdbConfig])
          | (Inr ic, w1) \<Rightarrow>
             (let traktConfig = \<lparr>ClientId = Getenv e EnvVarKeyClientId,
                    ClientSecret = Getenv e EnvVarKeyClientSecret,
                    Username = Getenv e EnvVarKeyUsername,
                    Password = Getenv e EnvVarKeyPassword\<rparr>
              in case NewTraktClient traktConfig w1 of
                (Inl err, w2) \<Rightarrow>
                  Inl ((''failure initialising trakt client'', err), w2,
                       [NewImdbClientCall imdbConfig, NewTraktClientCall traktConfig])
              | (Inr tc, w2) \<Rightarrow>
                 (let imdbListIdsString = Getenv e EnvVarKeyListIds
                  in Inr \<lparr>imdbClient = ic, traktClient = tc,
                       user_lists =
                         (if imdbListIdsString \<noteq> [] \<and> imdbListIdsString \<noteq> ''all''
                          then seedLists (Split_comma imdbListIdsString) []
                          else []),
                       user_ratings = emptyDataPair,
                       world = w2,
                       calls = [NewImdbClientCall imdbConfig,
                                NewTraktClientCall traktConfig]\<rparr>))))"

section \<open>The diff of a pairing\<close>

text \<open>
  Modelled from the spec: \<^verbatim>\<open>TraktItem.GetItemId\<close> belongs to the absent package
  \<^verbatim>\<open>entities\<close>. It yields the cross-service identifier of a mirror item and fails for an
  item that cannot yield one. The identifier is read where the update scan of syncRatings
  reads it: in the sub-record selected by the type tag.
\<close>

definition GetItemId :: "TraktItem \<Rightarrow> error + string" where
  "GetItemId t =
     (if Type t = TraktItemTypeMovie then Inr (IdsImdb (Movie t))
      else if Type t = TraktItemTypeShow then Inr (IdsImdb (Show t))
      else if Type t = TraktItemTypeEpisode then Inr (IdsImdb (Episode t))
      else Inl (ClientError (''unknown trakt item type '' @ Type t)))"

text \<open>The key of a mirror item, when it has one, and the keys of the two sides.\<close>

definition itemKey :: "TraktItem \<Rightarrow> string option" where
  "itemKey t = (case GetItemId t of Inl _ \<Rightarrow> None | Inr k \<Rightarrow> Some k)"

definition sourceKeys :: "DataPair \<Rightarrow> string option set" where
  "sourceKeys dp = set (map (\<lambda>x. Some (ItemId x)) (ImdbList dp))"

definition mirrorKeys :: "DataPair \<Rightarrow> string option set" where
  "mirrorKeys dp = set (map itemKey (TraktList dp))"

text \<open>
  Modelled from the spec: how a source item is written as a mirror item is not in
  syncer.go. The item keeps its key and its type tag; its rating value and rating
  timestamp, when present, are carried in the sub-record, where the update scan of
  syncRatings puts them. \<open>utc\<close> is \<^verbatim>\<open>t.UTC().String()\<close> of the Go library.
\<close>

definition traktItemOf :: "(time \<Rightarrow> string) \<Rightarrow> ImdbItem \<Rightarrow> TraktItem" where
  "traktItemOf utc x =
     (let spec = \<lparr>IdsImdb = ItemId x,
                  RatedAt = (case Rating x of None \<Rightarrow> None | Some _ \<Rightarrow> Some (utc (RatingDate x))),
                  SpecRating = Rating x\<rparr>
      in case TitleType x of
           TypeMovie \<Rightarrow> \<lparr>Type = TraktItemTypeMovie, TraktRating = 0,
                      Movie = spec, Show = emptySpec, Episode = emptySpec\<rparr>
         | TypeShow \<Rightarrow> \<lparr>Type = TraktItemTypeShow, TraktRating = 0,
                     Movie = emptySpec, Show = spec, Episode = emptySpec\<rparr>
         | TypeEpisode \<Rightarrow> \<lparr>Type = TraktItemTypeEpisode, TraktRating = 0,
                        Movie = emptySpec, Show = emptySpec, Episode = spec\<rparr>)"

text \<open>The result of the diff: the Go map with the keys \<^verbatim>\<open>"add"\<close> and \<^verbatim>\<open>"remove"\<close>.\<close>

record diff =
  diff_add :: "TraktItem list"
  diff_remove :: "TraktItem list"

text \<open>
  Modelled from the spec: \<^verbatim>\<open>DataPair.Difference\<close> belongs to the absent package
  \<^verbatim>\<open>entities\<close>. The spec: toAdd holds the items present in the source and absent in the
  mirror by key, toRemove the items present in the mirror and absent in the source by
  key. A mirror item without a key is absent from the source.
\<close>

definition Difference :: "(time \<Rightarrow> string) \<Rightarrow> DataPair \<Rightarrow> diff" where
  "Difference utc dp =
     \<lparr>diff_add = map (traktItemOf utc)
        (filter (\<lambda>x. Some (ItemId x) \<notin> mirrorKeys dp) (ImdbList dp)),
      diff_remove = filter (\<lambda>y. itemKey y \<notin> sourceKeys dp) (TraktList dp)\<rparr>"

section \<open>Sequencing\<close>

text \<open>
  \<open>andThen\<close> is \<^verbatim>\<open>if err != nil { return err }\<close> between two steps, and \<open>wrapErr\<close>
  is \<^verbatim>\<open>return fmt.Errorf("msg: %w", err)\<close> around one step.
\<close>

definition andThen ::
  "error option \<times> 's \<Rightarrow> ('s \<Rightarrow> error option \<times> 's) \<Rightarrow> error option \<times> 's" where
  "andThen r f = (case r of (Some err, s) \<Rightarrow> (Some err, s) | (None, s) \<Rightarrow> f s)"

definition wrapErr :: "string \<Rightarrow> error option \<times> 's \<Rightarrow> error option \<times> 's" where
  "wrapErr msg r = (case r of (Some err, s) \<Rightarrow> (Some (Wrapped msg err), s) | (None, s) \<Rightarrow> (None, s))"

section \<open>Hydration\<close>

text \<open>
  cleanupLists. \<open>fmt\<close> is \<^verbatim>\<open>client.FormatTraktListName\<close>, a function of the absent
  package \<^verbatim>\<open>client\<close>. The loop keeps the map \<open>uniqueListNames\<close> and the pairings
  written so far (\<^verbatim>\<open>lists[:n]\<close>).
\<close>

fun cleanupLoop ::
  "(string \<Rightarrow> string) \<Rightarrow> DataPair list \<Rightarrow> (string \<rightharpoonup> bool) \<Rightarrow> DataPair list \<Rightarrow> 'w Syncer \<Rightarrow>
   (error option \<times> DataPair list) \<times> 'w Syncer" where
  "cleanupLoop fmt [] uniqueListNames kept s = ((None, kept), s)"
| "cleanupLoop fmt (list # rest) uniqueListNames kept s =
     (case uniqueListNames (ImdbListId list) of
        Some _ \<Rightarrow> cleanupLoop fmt rest uniqueListNames kept s
      | None \<Rightarrow>
         (case invoke (ImdbListItemsGetCall (ImdbListId list))
                 (ImdbListItemsGet (imdbClient s) (ImdbListId list)) s of
            (Inl err, s1) \<Rightarrow>
              if isNotFound err
              then cleanupLoop fmt rest (uniqueListNames(ImdbListId list \<mapsto> True)) kept s1
              else ((Some (Wrapped ''unexpected error while cleaning up user provided imdb lists''
                            err), kept), s1)
          | (Inr (imdbListName, imdbList), s1) \<Rightarrow>
              cleanupLoop fmt rest (uniqueListNames(ImdbListId list \<mapsto> True))
                (kept @ [\<lparr>ImdbList = imdbList, ImdbListId = ImdbListId list,
                          ImdbListName = imdbListName, TraktList = [],
                          TraktListId = fmt imdbListName, IsWatchlist = False\<rparr>]) s1))"

definition cleanupLists :: "(string \<Rightarrow> string) \<Rightarrow> 'w Syncer \<Rightarrow> error option \<times> 'w Syncer" where
  "cleanupLists fmt s =
     (case cleanupLoop fmt (user_lists s) Map.empty [] s of
        ((Some err, kept), s1) \<Rightarrow> (Some err, s1)
      | ((None, kept), s1) \<Rightarrow> (None, s1\<lparr>user_lists := kept\<rparr>))"

text \<open>The first step of hydrate: the explicit identifiers, or the scrape of all lists.\<close>

definition hydrateSource :: "(string \<Rightarrow> string) \<Rightarrow> 'w Syncer \<Rightarrow> error option \<times> 'w Syncer" where
  "hydrateSource fmt s =
     (if length (user_lists s) \<noteq> 0
      then wrapErr ''failure cleaning up imdb lists'' (cleanupLists fmt s)
      else (case invoke ImdbListsScrapeCall (ImdbListsScrape (imdbClient s)) s of
              (Inl err, s1) \<Rightarrow> (Some (Wrapped ''failure scraping imdb lists'' err), s1)
            | (Inr dps, s1) \<Rightarrow> (None, s1\<lparr>user_lists := dps\<rparr>)))"

text \<open>The second step: the watchlist pairing is appended.\<close>

definition hydrateWatchlist :: "'w Syncer \<Rightarrow> error option \<times> 'w Syncer" where
  "hydrateWatchlist s =
     (case invoke ImdbWatchlistGetCall (ImdbWatchlistGet (imdbClient s)) s of
        (Inl err, s1) \<Rightarrow> (Some (Wrapped ''failure fetching imdb watchlist'' err), s1)
      | (Inr (watchlistId, imdbList), s1) \<Rightarrow>
          (None, s1\<lparr>user_lists := user_lists s1 @
             [\<lparr>ImdbList = imdbList, ImdbListId = watchlistId, ImdbListName = ''watchlist'',
               TraktList = [], TraktListId = [], IsWatchlist = True\<rparr>]\<rparr>))"

text \<open>
  The third step: the loop over \<^verbatim>\<open>s.user.lists\<close> that fills in the mirror side of each
  pairing. The loop writes through a pointer into the slice; here it returns the
  pairings as they stand when it ends, the element it failed on and the ones after it
  unchanged.
\<close>

definition hydrated ::
  "DataPair \<Rightarrow> (error option \<times> DataPair list) \<times> 'w Syncer \<Rightarrow>
   (error option \<times> DataPair list) \<times> 'w Syncer" where
  "hydrated currentList r = (case r of ((err, rest), s) \<Rightarrow> ((err, currentList # rest), s))"

fun hydratePairs ::
  "DataPair list \<Rightarrow> 'w Syncer \<Rightarrow> (error option \<times> DataPair list) \<times> 'w Syncer" where
  "hydratePairs [] s = ((None, []), s)"
| "hydratePairs (currentList # rest) s =
     (if IsWatchlist currentList then
        (case invoke WatchlistItemsGetCall (WatchlistItemsGet (traktClient s)) s of
           (Inl err, s1) \<Rightarrow>
             ((Some (Wrapped ''failure fetching trakt watchlist'' err), currentList # rest), s1)
         | (Inr traktWatchlist, s1) \<Rightarrow>
             hydrated (currentList\<lparr>TraktList := traktWatchlist\<rparr>) (hydratePairs rest s1))
      else
        (case invoke (ListItemsGetCall (TraktListId currentList))
                (ListItemsGet (traktClient s) (TraktListId currentList)) s of
           ((traktList, Some err), s1) \<Rightarrow>
             if isNotFound err then
               (case invoke (ListAddCall (TraktListId currentList) (ImdbListName currentList))
                       (ListAdd (traktClient s1) (TraktListId currentList)
                          (ImdbListName currentList)) s1 of
                  (Some err2, s2) \<Rightarrow>
                    ((Some (Wrapped (''failure creating trakt list '' @ TraktListId currentList)
                             err2), currentList # rest), s2)
                | (None, s2) \<Rightarrow>
                    hydrated (currentList\<lparr>TraktList := traktList\<rparr>) (hydratePairs rest s2))
             else
               ((Some (Wrapped (''unexpected error while fetching contents of trakt list '' @
                          TraktListId currentList) err), currentList # rest), s1)
         | ((traktList, None), s1) \<Rightarrow>
             hydrated (currentList\<lparr>TraktList := traktList\<rparr>) (hydratePairs rest s1)))"

definition hydrateMirror :: "'w Syncer \<Rightarrow> error option \<times> 'w Syncer" where
  "hydrateMirror s =
     (case hydratePairs (user_lists s) s of
        ((err, dps), s1) \<Rightarrow> (err, s1\<lparr>user_lists := dps\<rparr>))"

text \<open>The last step: the ratings of both sides.\<close>

definition hydrateRatings :: "'w Syncer \<Rightarrow> error option \<times> 'w Syncer" where
  "hydrateRatings s =
     (case invoke ImdbRatingsGetCall (ImdbRatingsGet (imdbClient s)) s of
        (Inl err, s1) \<Rightarrow> (Some (Wrapped ''failure fetching imdb ratings'' err), s1)
      | (Inr imdbRatings, s1) \<Rightarrow>
         (case invoke RatingsGetCall (RatingsGet (traktClient s1)) s1 of
            (Inl err, s2) \<Rightarrow> (Some (Wrapped ''failure fetching trakt ratings'' err), s2)
          | (Inr traktRatings, s2) \<Rightarrow>
              (None, s2\<lparr>user_ratings :=
                 emptyDataPair\<lparr>ImdbList := imdbRatings, TraktList := traktRatings\<rparr>\<rparr>)))"

definition hydrate :: "(string \<Rightarrow> string) \<Rightarrow> 'w Syncer \<Rightarrow> error option \<times> 'w Syncer" where
  "hydrate fmt s =
     andThen (hydrateSource fmt s) (\<lambda>s1.
     andThen (hydrateWatchlist s1) (\<lambda>s2.
     andThen (hydrateMirror s2) hydrateRatings))"

section \<open>List reconciliation\<close>

fun contains :: "DataPair list \<Rightarrow> string \<Rightarrow> bool" where
  "contains [] traktListName = False"
| "contains (dp # dps) traktListName =
     (if ImdbListName dp = traktListName then True else contains dps traktListName)"

text \<open>The body of the first loop of syncLists: the diff of one pairing is applied.\<close>

definition syncPairing :: "(time \<Rightarrow> string) \<Rightarrow> DataPair \<Rightarrow> 'w Syncer \<Rightarrow> error option \<times> 'w Syncer" where
  "syncPairing utc list s =
     (let d = Difference utc list in
      if IsWatchlist list then
        andThen
          (if length (diff_add d) > 0
           then wrapErr ''failure adding items to trakt watchlist''
                  (invoke (WatchlistItemsAddCall (diff_add d))
                     (WatchlistItemsAdd (traktClient s) (diff_add d)) s)
           else (None, s))
          (\<lambda>s1. if length (diff_remove d) > 0
                then wrapErr ''failure removing items from trakt watchlist''
                       (invoke (WatchlistItemsRemoveCall (diff_remove d))
                          (WatchlistItemsRemove (traktClient s1) (diff_remove d)) s1)
                else (None, s1))
      else
        andThen
          (if length (diff_add d) > 0
           then wrapErr (''failure adding items to trakt list '' @ TraktListId list)
                  (invoke (ListItemsAddCall (TraktListId list) (diff_add d))
                     (ListItemsAdd (traktClient s) (TraktListId list) (diff_add d)) s)
           else (None, s))
          (\<lambda>s1. if length (diff_remove d) > 0
                then wrapErr (''failure removing items from trakt list '' @ TraktListId list)
                       (invoke (ListItemsRemoveCall (TraktListId list) (diff_remove d))
                          (ListItemsRemove (traktClient s1) (TraktListId list) (diff_remove d)) s1)
                else (None, s1)))"

fun syncPairings :: "(time \<Rightarrow> string) \<Rightarrow> DataPair list \<Rightarrow> 'w Syncer \<Rightarrow> error option \<times> 'w Syncer" where
  "syncPairings utc [] s = (None, s)"
| "syncPairings utc (list # rest) s = andThen (syncPairing utc list s) (syncPairings utc rest)"

text \<open>The second loop of syncLists: the lists that only exist in the mirror are removed.\<close>

fun removeOrphans ::
  "DataPair list \<Rightarrow> TraktListEntry list \<Rightarrow> 'w Syncer \<Rightarrow> error option \<times> 'w Syncer" where
  "removeOrphans dps [] s = (None, s)"
| "removeOrphans dps (traktList # rest) s =
     (if \<not> contains dps (Name traktList) then
        andThen
          (wrapErr (''failure removing trakt list '' @ Name traktList)
             (invoke (ListRemoveCall (IdsSlug traktList))
                (ListRemove (traktClient s) (IdsSlug traktList)) s))
          (removeOrphans dps rest)
      else removeOrphans dps rest s)"

definition syncLists :: "(time \<Rightarrow> string) \<Rightarrow> 'w Syncer \<Rightarrow> error option \<times> 'w Syncer" where
  "syncLists utc s =
     andThen (syncPairings utc (user_lists s) s) (\<lambda>s1.
       case invoke ListsGetCall (ListsGet (traktClient s1)) s1 of
         (Inl err, s2) \<Rightarrow> (Some (Wrapped ''failure fetching trakt lists'' err), s2)
       | (Inr traktLists, s2) \<Rightarrow> removeOrphans (user_lists s2) traktLists s2)"

section \<open>Rating reconciliation\<close>

text \<open>
  The loop over \<^verbatim>\<open>diff["add"]\<close>: an item enters \<open>historyToAdd\<close> when the mirror has no
  history for it.
\<close>

fun historyToAddLoop ::
  "TraktItem list \<Rightarrow> TraktItem list \<Rightarrow> 'w Syncer \<Rightarrow> (error + TraktItem list) \<times> 'w Syncer" where
  "historyToAddLoop [] historyToAdd s = (Inr historyToAdd, s)"
| "historyToAddLoop (item # rest) historyToAdd s =
     (case GetItemId item of
        Inl err \<Rightarrow> (Inl (Wrapped ''failure fetching trakt item id'' err), s)
      | Inr traktItemId \<Rightarrow>
         (case invoke (HistoryGetCall (Type item) traktItemId)
                 (HistoryGet (traktClient s) (Type item) traktItemId) s of
            (Inl err, s1) \<Rightarrow>
              (Inl (Wrapped (''failure fetching trakt history for '' @ Type item @ '' '' @
                       traktItemId) err), s1)
          | (Inr history, s1) \<Rightarrow>
              if length history > 0 then historyToAddLoop rest historyToAdd s1
              else historyToAddLoop rest (historyToAdd @ [item]) s1))"

text \<open>
  The loop over \<^verbatim>\<open>diff["remove"]\<close>: an item enters \<open>historyToRemove\<close> when the mirror
  has history for it.
\<close>

fun historyToRemoveLoop ::
  "TraktItem list \<Rightarrow> TraktItem list \<Rightarrow> 'w Syncer \<Rightarrow> (error + TraktItem list) \<times> 'w Syncer" where
  "historyToRemoveLoop [] historyToRemove s = (Inr historyToRemove, s)"
| "historyToRemoveLoop (item # rest) historyToRemove s =
     (case GetItemId item of
        Inl err \<Rightarrow> (Inl (Wrapped ''failure fetching trakt item id'' err), s)
      | Inr traktItemId \<Rightarrow>
         (case invoke (HistoryGetCall (Type item) traktItemId)
                 (HistoryGet (traktClient s) (Type item) traktItemId) s of
            (Inl err, s1) \<Rightarrow>
              (Inl (Wrapped (''failure fetching trakt history for '' @ Type item @ '' '' @
                       traktItemId) err), s1)
          | (Inr history, s1) \<Rightarrow>
              if length history = 0 then historyToRemoveLoop rest historyToRemove s1
              else historyToRemoveLoop rest (historyToRemove @ [item]) s1))"

definition syncRatingsAdd :: "TraktItem list \<Rightarrow> 'w Syncer \<Rightarrow> error option \<times> 'w Syncer" where
  "syncRatingsAdd toAdd s =
     (if length toAdd > 0 then
        andThen
          (wrapErr ''failure adding trakt ratings''
             (invoke (RatingsAddCall toAdd) (RatingsAdd (traktClient s) toAdd) s))
          (\<lambda>s1. case historyToAddLoop toAdd [] s1 of
                  (Inl err, s2) \<Rightarrow> (Some err, s2)
                | (Inr historyToAdd, s2) \<Rightarrow>
                    if length historyToAdd > 0
                    then wrapErr ''failure adding trakt history''
                           (invoke (HistoryAddCall historyToAdd)
                              (HistoryAdd (traktClient s2) historyToAdd) s2)
                    else (None, s2))
      else (None, s))"

definition syncRatingsRemove :: "TraktItem list \<Rightarrow> 'w Syncer \<Rightarrow> error option \<times> 'w Syncer" where
  "syncRatingsRemove toRemove s =
     (if length toRemove > 0 then
        andThen
          (wrapErr ''failure removing trakt ratings''
             (invoke (RatingsRemoveCall toRemove) (RatingsRemove (traktClient s) toRemove) s))
          (\<lambda>s1. case historyToRemoveLoop toRemove [] s1 of
                  (Inl err, s2) \<Rightarrow> (Some err, s2)
                | (Inr historyToRemove, s2) \<Rightarrow>
                    if length historyToRemove > 0
                    then wrapErr ''failure removing trakt history''
                           (invoke (HistoryRemoveCall historyToRemove)
                              (HistoryRemove (traktClient s2) historyToRemove) s2)
                    else (None, s2))
      else (None, s))"

text \<open>
  The update scan. \<open>stamp\<close> writes the source's rating and the source's rating date, as
  a UTC string, into a sub-record of the mirror item; the loop variable \<open>traktItem\<close> is
  a copy, so the slice being scanned is not changed. \<open>updated\<close> is the switch on the
  type tag for one source item with the rating \<open>r\<close> and one mirror item.
\<close>

definition stamp :: "(time \<Rightarrow> string) \<Rightarrow> ImdbItem \<Rightarrow> TraktItemSpec \<Rightarrow> TraktItemSpec" where
  "stamp utc imdbItem spec =
     spec\<lparr>SpecRating := Rating imdbItem, RatedAt := Some (utc (RatingDate imdbItem))\<rparr>"

definition updated :: "(time \<Rightarrow> string) \<Rightarrow> ImdbItem \<Rightarrow> int \<Rightarrow> TraktItem \<Rightarrow> TraktItem option" where
  "updated utc imdbItem r traktItem =
     (if Type traktItem = TraktItemTypeMovie then
        (if ItemId imdbItem = IdsImdb (Movie traktItem) \<and> r \<noteq> TraktRating traktItem
         then Some (traktItem\<lparr>Movie := stamp utc imdbItem (Movie traktItem)\<rparr>) else None)
      else if Type traktItem = TraktItemTypeShow then
        (if ItemId imdbItem = IdsImdb (Show traktItem) \<and> r \<noteq> TraktRating traktItem
         then Some (traktItem\<lparr>Show := stamp utc imdbItem (Show traktItem)\<rparr>) else None)
      else if Type traktItem = TraktItemTypeEpisode then
        (if ItemId imdbItem = IdsImdb (Episode traktItem) \<and> r \<noteq> TraktRating traktItem
         then Some (traktItem\<lparr>Episode := stamp utc imdbItem (Episode traktItem)\<rparr>) else None)
      else None)"

fun scanTraktList ::
  "(time \<Rightarrow> string) \<Rightarrow> ImdbItem \<Rightarrow> int \<Rightarrow> TraktItem list \<Rightarrow> TraktItem list \<Rightarrow> TraktItem list" where
  "scanTraktList utc imdbItem r [] ratingsToUpdate = ratingsToUpdate"
| "scanTraktList utc imdbItem r (traktItem # rest) ratingsToUpdate =
     (case updated utc imdbItem r traktItem of
        Some stamped \<Rightarrow> scanTraktList utc imdbItem r rest (ratingsToUpdate @ [stamped])
      | None \<Rightarrow> scanTraktList utc imdbItem r rest ratingsToUpdate)"

fun scanImdbList ::
  "(time \<Rightarrow> string) \<Rightarrow> ImdbItem list \<Rightarrow> TraktItem list \<Rightarrow> TraktItem list \<Rightarrow> TraktItem list" where
  "scanImdbList utc [] traktList ratingsToUpdate = ratingsToUpdate"
| "scanImdbList utc (imdbItem # rest) traktList ratingsToUpdate =
     (case Rating imdbItem of
        Some r \<Rightarrow> scanImdbList utc rest traktList
                    (scanTraktList utc imdbItem r traktList ratingsToUpdate)
      | None \<Rightarrow> scanImdbList utc rest traktList ratingsToUpdate)"

definition syncRatingsUpdate :: "(time \<Rightarrow> string) \<Rightarrow> 'w Syncer \<Rightarrow> error option \<times> 'w Syncer" where
  "syncRatingsUpdate utc s =
     (let ratingsToUpdate =
            scanImdbList utc (ImdbList (user_ratings s)) (TraktList (user_ratings s)) []
      in if length ratingsToUpdate > 0
         then wrapErr ''failure updating trakt ratings''
                (invoke (RatingsAddCall ratingsToUpdate)
                   (RatingsAdd (traktClient s) ratingsToUpdate) s)
         else (None, s))"

definition syncRatings :: "(time \<Rightarrow> string) \<Rightarrow> 'w Syncer \<Rightarrow> error option \<times> 'w Syncer" where
  "syncRatings utc s =
     (let d = Difference utc (user_ratings s) in
      andThen (syncRatingsAdd (diff_add d) s) (\<lambda>s1.
      andThen (syncRatingsRemove (diff_remove d) s1) (syncRatingsUpdate utc)))"

section \<open>The run\<close>

text \<open>Run: the first failing phase ends the process with a fatal log entry.\<close>

definition Run ::
  "(time \<Rightarrow> string) \<Rightarrow> (string \<Rightarrow> string) \<Rightarrow> 'w Syncer \<Rightarrow> (string \<times> error) option \<times> 'w Syncer" where
  "Run utc fmt s =
     (case hydrate fmt s of
        (Some err, s1) \<Rightarrow> (Some (''failure hydrating imdb client'', err), s1)
      | (None, s1) \<Rightarrow>
         (case syncLists utc s1 of
            (Some err, s2) \<Rightarrow> (Some (''failure syncing lists'', err), s2)
          | (None, s2) \<Rightarrow>
             (case syncRatings utc s2 of
                (Some err, s3) \<Rightarrow> (Some (''failure syncing ratings'', err), s3)
              | (None, s3) \<Rightarrow> (None, s3))))"

section \<open>Vocabulary of the statements\<close>

text \<open>
  \<^verbatim>\<open>strings.Join(pieces, ",")\<close>, the inverse of the split, and the identifiers of a list
  with later repetitions left out (first occurrence wins).
\<close>

fun Join_comma :: "string list \<Rightarrow> string" where
  "Join_comma [] = []"
| "Join_comma [piece] = piece"
| "Join_comma (piece # next # pieces) = piece @ CHR '','' # Join_comma (next # pieces)"

fun dedupFrom :: "string list \<Rightarrow> string list \<Rightarrow> string list" where
  "dedupFrom seen [] = []"
| "dedupFrom seen (x # xs) =
     (if x \<in> set seen then dedupFrom seen xs else x # dedupFrom (x # seen) xs)"

definition firstOccurrences :: "string list \<Rightarrow> string list" where
  "firstOccurrences xs = dedupFrom [] xs"

text \<open>
  The spec's wording of cleanup, to be compared with cleanupLists: the identifiers are
  deduplicated first; then each one is fetched in turn, a not-found identifier is
  dropped, any other error fails, and a found identifier gives one pairing.
\<close>

fun fetchEach ::
  "(string \<Rightarrow> string) \<Rightarrow> string list \<Rightarrow> DataPair list \<Rightarrow> 'w Syncer \<Rightarrow>
   (error option \<times> DataPair list) \<times> 'w Syncer" where
  "fetchEach fmt [] kept s = ((None, kept), s)"
| "fetchEach fmt (i # rest) kept s =
     (case invoke (ImdbListItemsGetCall i) (ImdbListItemsGet (imdbClient s) i) s of
        (Inl err, s1) \<Rightarrow>
          if isNotFound err then fetchEach fmt rest kept s1
          else ((Some (Wrapped ''unexpected error while cleaning up user provided imdb lists''
                        err), kept), s1)
      | (Inr (imdbListName, imdbList), s1) \<Rightarrow>
          fetchEach fmt rest
            (kept @ [\<lparr>ImdbList = imdbList, ImdbListId = i, ImdbListName = imdbListName,
                      TraktList = [], TraktListId = fmt imdbListName, IsWatchlist = False\<rparr>]) s1)"

definition cleanupByDedup :: "(string \<Rightarrow> string) \<Rightarrow> 'w Syncer \<Rightarrow> error option \<times> 'w Syncer" where
  "cleanupByDedup fmt s =
     (case fetchEach fmt (firstOccurrences (map ImdbListId (user_lists s))) [] s of
        ((Some err, kept), s1) \<Rightarrow> (Some err, s1)
      | ((None, kept), s1) \<Rightarrow> (None, s1\<lparr>user_lists := kept\<rparr>))"

text \<open>The slugs of the list deletions and the batches of the history additions in a
  sequence of calls.\<close>

definition removedSlugs :: "call list \<Rightarrow> string list" where
  "removedSlugs cs = concat (map (\<lambda>c. case c of ListRemoveCall slug \<Rightarrow> [slug] | _ \<Rightarrow> []) cs)"

definition historyAdds :: "call list \<Rightarrow> TraktItem list list" where
  "historyAdds cs = concat (map (\<lambda>c. case c of HistoryAddCall batch \<Rightarrow> [batch] | _ \<Rightarrow> []) cs)"

text \<open>The sub-record of a mirror item that its type tag selects.\<close>

definition keyedSpec :: "TraktItem \<Rightarrow> TraktItemSpec option" where
  "keyedSpec t =
     (if Type t = TraktItemTypeMovie then Some (Movie t)
      else if Type t = TraktItemTypeShow then Some (Show t)
      else if Type t = TraktItemTypeEpisode then Some (Episode t)
      else None)"

section \<open>Example clients\<close>

text \<open>
  A source with the lists \<open>lsA\<close> and \<open>lsB\<close> (and no list \<open>ls404\<close>), an empty watchlist and
  three ratings; a mirror that has none of the source's lists yet, two lists of its own,
  two ratings and watch history for \<open>tt2\<close> only.
\<close>

definition exampleUtc :: "time \<Rightarrow> string" where
  "exampleUtc t = (if t = 0 then ''1970-01-01 00:00:00 +0000 UTC''
                   else ''2023-05-01 10:00:00 +0000 UTC'')"

definition exampleFormat :: "string \<Rightarrow> string" where
  "exampleFormat n = map (\<lambda>c. if c = CHR '' '' then CHR ''-'' else c) n"

definition rated :: "string \<Rightarrow> int \<Rightarrow> ImdbItem" where
  "rated i r = \<lparr>ItemId = i, TitleType = TypeMovie, Rating = Some r, RatingDate = 1\<rparr>"

definition mirrorMovie :: "string \<Rightarrow> int \<Rightarrow> TraktItem" where
  "mirrorMovie i r = \<lparr>Type = TraktItemTypeMovie, TraktRating = r,
     Movie = \<lparr>IdsImdb = i, RatedAt = None, SpecRating = None\<rparr>,
     Show = emptySpec, Episode = emptySpec\<rparr>"

definition exampleImdbClient :: "unit ImdbClient" where
  "exampleImdbClient =
     \<lparr>ImdbListItemsGet = (\<lambda>i w. (if i = ''ls404'' then Inl (ApiError 404)
                                else Inr (''List '' @ i, [rated ''tt1'' 9]), w)),
      ImdbListsScrape = (\<lambda>w. (Inr [emptyDataPair\<lparr>ImdbListId := ''lsA'',
                                  ImdbListName := ''List lsA'', TraktListId := ''List-lsA''\<rparr>], w)),
      ImdbWatchlistGet = (\<lambda>w. (Inr (''ls0'', []), w)),
      ImdbRatingsGet = (\<lambda>w. (Inr [rated ''tt1'' 9, rated ''tt2'' 7, rated ''tt3'' 5], w))\<rparr>"

definition exampleTraktClient :: "unit TraktClient" where
  "exampleTraktClient =
     \<lparr>WatchlistItemsGet = (\<lambda>w. (Inr [], w)),
      ListItemsGet = (\<lambda>i w. (([], Some (ApiError 404)), w)),
      ListAdd = (\<lambda>i n w. (None, w)),
      ListsGet = (\<lambda>w. (Inr [\<lparr>Name = ''List lsA'', IdsSlug = ''list-lsa''\<rparr>,
                            \<lparr>Name = ''Old list'', IdsSlug = ''old-list''\<rparr>,
                            \<lparr>Name = ''watchlist'', IdsSlug = ''watchlist''\<rparr>], w)),
      ListRemove = (\<lambda>i w. (None, w)),
      ListItemsAdd = (\<lambda>i xs w. (None, w)),
      ListItemsRemove = (\<lambda>i xs w. (None, w)),
      WatchlistItemsAdd = (\<lambda>xs w. (None, w)),
      WatchlistItemsRemove = (\<lambda>xs w. (None, w)),
      RatingsGet = (\<lambda>w. (Inr [mirrorMovie ''tt1'' 8, mirrorMovie ''tt9'' 6], w)),
      RatingsAdd = (\<lambda>xs w. (None, w)),
      RatingsRemove = (\<lambda>xs w. (None, w)),
      HistoryGet = (\<lambda>t i w. (Inr (if i = ''tt2'' then [mirrorMovie ''tt2'' 0] else []), w)),
      HistoryAdd = (\<lambda>xs w. (None, w)),
      HistoryRemove = (\<lambda>xs w. (None, w))\<rparr>"

text \<open>A syncer over the example clients, seeded with the given identifiers.\<close>

definition exampleSyncer :: "string list \<Rightarrow> unit Syncer" where
  "exampleSyncer ids =
     \<lparr>imdbClient = exampleImdbClient, traktClient = exampleTraktClient,
      user_lists = seedLists ids [], user_ratings = emptyDataPair, world = (), calls = []\<rparr>"

text \<open>An environment in which every variable but \<^verbatim>\<open>IMDB_USER_ID\<close> is set.\<close>

definition exampleEnv :: "string \<Rightarrow> env" where
  "exampleEnv ids = map_of
     [(EnvVarKeyListIds, ids), (EnvVarKeyCookieAtMain, ''at''), (EnvVarKeyCookieUbidMain, ''ubid''),
      (EnvVarKeyClientId, ''id''), (EnvVarKeyClientSecret, ''secret''),
      (EnvVarKeyUsername, ''user''), (EnvVarKeyPassword, ''pass'')]"

text \<open>Client constructors that hand out the example clients, and the syncer that
  NewSyncer builds from them.\<close>

definition exampleNewImdbClient :: "ImdbConfig \<Rightarrow> unit \<Rightarrow> (error + unit ImdbClient) \<times> unit" where
  "exampleNewImdbClient c w = (Inr exampleImdbClient, w)"

definition exampleNewTraktClient :: "TraktConfig \<Rightarrow> unit \<Rightarrow> (error + unit TraktClient) \<times> unit" where
  "exampleNewTraktClient c w = (Inr exampleTraktClient, w)"

definition exampleStarted :: "string list \<Rightarrow> unit Syncer" where
  "exampleStarted ids = (exampleSyncer ids)\<lparr>calls :=
     [NewImdbClientCall \<lparr>CookieAtMain = ''at'', CookieUbidMain = ''ubid'', UserId = []\<rparr>,
      NewTraktClientCall \<lparr>ClientId = ''id'', ClientSecret = ''secret'', Username = ''user'',
        Password = ''pass''\<rparr>]\<rparr>"

text \<open>The example syncer with the ratings of both sides in place.\<close>

definition exampleRatings :: DataPair where
  "exampleRatings = emptyDataPair
     \<lparr>ImdbList := [rated ''tt1'' 9, rated ''tt2'' 7, rated ''tt3'' 5],
      TraktList := [mirrorMovie ''tt1'' 8, mirrorMovie ''tt9'' 6]\<rparr>"

definition exampleRated :: "unit Syncer" where
  "exampleRated = (exampleSyncer [])\<lparr>user_ratings := exampleRatings\<rparr>"

text \<open>Clients that answer one operation with a server error.\<close>

definition exampleImdbFetchFails :: "unit ImdbClient" where
  "exampleImdbFetchFails =
     exampleImdbClient\<lparr>ImdbListItemsGet := (\<lambda>i w. (Inl (ApiError 500), w))\<rparr>"






section \<open>Basic facts\<close>

lemmas example_defs = exampleSyncer_def exampleImdbClient_def exampleTraktClient_def
  exampleFormat_def exampleUtc_def rated_def mirrorMovie_def emptyDataPair_def emptySpec_def
  exampleEnv_def

lemmas envkey_defs = EnvVarKeyCookieAtMain_def EnvVarKeyCookieUbidMain_def EnvVarKeyListIds_def
  EnvVarKeyUserId_def EnvVarKeyClientId_def EnvVarKeyClientSecret_def EnvVarKeyPassword_def
  EnvVarKeyUsername_def requiredEnvVarKeys_def recognisedEnvVarKeys_def

lemmas step_defs = hydrate_def hydrateSource_def hydrateWatchlist_def hydrateMirror_def
  hydrateRatings_def cleanupLists_def andThen_def wrapErr_def invoke_def hydrated_def
  isNotFound_def StatusNotFound_def ReplaceAll_space_def

lemma invokeD:
  "invoke c op s = (r, s') \<Longrightarrow>
     calls s' = calls s @ [c] \<and> user_lists s' = user_lists s \<and>
     user_ratings s' = user_ratings s \<and> imdbClient s' = imdbClient s \<and>
     traktClient s' = traktClient s \<and> op (world s) = (r, world s')"
  by (auto simp add: invoke_def split: prod.splits)

lemma andThenE:
  "andThen x f = (None, s') \<Longrightarrow> \<exists>s1. x = (None, s1) \<and> f s1 = (None, s')"
  by (auto simp add: andThen_def split: prod.splits option.splits)

lemma wrapErr_None: "wrapErr msg x = (None, s') \<longleftrightarrow> x = (None, s')"
  by (auto simp add: wrapErr_def split: prod.splits option.splits)

section \<open>Configuration\<close>

lemma collectMissing_filter:
  "collectMissing e ks acc = acc @ filter (\<lambda>k. e k = None) ks"
  by (induction ks arbitrary: acc) simp_all

lemma validateEnvVars_eq:
  "validateEnvVars e =
     (if filter (\<lambda>k. e k = None) requiredEnvVarKeys = [] then None
      else Some (MissingEnvironmentVariablesError (filter (\<lambda>k. e k = None) requiredEnvVarKeys)))"
  by (simp add: validateEnvVars_def collectMissing_filter Let_def)

lemma NewSyncer_invalid:
  "validateEnvVars e = Some err \<Longrightarrow>
     NewSyncer e mkI mkT w = Inl ((''failure validating environment variables'', err), w, [])"
  by (simp add: NewSyncer_def)

text \<open>
  C7, as it is stated, fails for the source account identifier: \<^verbatim>\<open>IMDB_USER_ID\<close> is one
  of the recognised inputs, and with it unset and the other seven set the validation
  reports nothing: NewSyncer goes on, constructs both clients (the source client with an
  empty user id) and returns the syncer.
\<close>

theorem validateEnvVars_user_id_counterexample:
  "EnvVarKeyUserId \<in> set recognisedEnvVarKeys \<and>
   exampleEnv ''all'' EnvVarKeyUserId = None \<and>
   validateEnvVars (exampleEnv ''all'') = None \<and>
   NewSyncer (exampleEnv ''all'') exampleNewImdbClient exampleNewTraktClient () =
     Inr (exampleStarted [])"
  by (simp add: NewSyncer_def validateEnvVars_eq Getenv_def example_defs envkey_defs
      exampleStarted_def exampleNewImdbClient_def exampleNewTraktClient_def)

text \<open>
  C7, amended. The validation reports exactly the keys of its required list that are
  unset, all of them at once and in the order of the list, and nothing when none is
  unset. When it reports an error NewSyncer ends the process with it before a client is
  constructed: the remote state is untouched and no call has been issued. The required
  list is the recognised inputs without \<^verbatim>\<open>IMDB_USER_ID\<close>.
\<close>

theorem validateEnvVars_required:
  "validateEnvVars e =
     (if filter (\<lambda>k. e k = None) requiredEnvVarKeys = [] then None
      else Some (MissingEnvironmentVariablesError (filter (\<lambda>k. e k = None) requiredEnvVarKeys)))
   \<and> (case validateEnvVars e of
         None \<Rightarrow> True
       | Some err \<Rightarrow> NewSyncer e mkI mkT w =
                      Inl ((''failure validating environment variables'', err), w, []))
   \<and> set requiredEnvVarKeys = set recognisedEnvVarKeys - {EnvVarKeyUserId}"
proof -
  have "set requiredEnvVarKeys = set recognisedEnvVarKeys - {EnvVarKeyUserId}"
    by (auto simp add: envkey_defs)
  then show ?thesis
    using validateEnvVars_eq[of e] by (auto simp add: NewSyncer_invalid split: option.splits)
qed

theorem validateEnvVars_required_witness:
  "validateEnvVars [EnvVarKeyListIds \<mapsto> ''all'', EnvVarKeyUsername \<mapsto> ''user''] =
     Some (MissingEnvironmentVariablesError
       [EnvVarKeyCookieAtMain, EnvVarKeyCookieUbidMain, EnvVarKeyClientId,
        EnvVarKeyClientSecret, EnvVarKeyPassword])
   \<and> NewSyncer [EnvVarKeyListIds \<mapsto> ''all'', EnvVarKeyUsername \<mapsto> ''user'']
        (\<lambda>c w. (Inr exampleImdbClient, w)) (\<lambda>c w. (Inr exampleTraktClient, w)) () =
      Inl ((''failure validating environment variables'',
            MissingEnvironmentVariablesError
              [EnvVarKeyCookieAtMain, EnvVarKeyCookieUbidMain, EnvVarKeyClientId,
               EnvVarKeyClientSecret, EnvVarKeyPassword]), (), [])"
proof -
  let ?e = "[EnvVarKeyListIds \<mapsto> ''all'', EnvVarKeyUsername \<mapsto> ''user'']"
  note required = validateEnvVars_required
    [of ?e "\<lambda>c w. (Inr exampleImdbClient, w)" "\<lambda>c w. (Inr exampleTraktClient, w)" "()"]
  have missing: "validateEnvVars ?e =
     Some (MissingEnvironmentVariablesError
       [EnvVarKeyCookieAtMain, EnvVarKeyCookieUbidMain, EnvVarKeyClientId,
        EnvVarKeyClientSecret, EnvVarKeyPassword])"
    using required by (simp add: envkey_defs)
  from required show ?thesis
    unfolding missing by simp
qed

section \<open>Seeding the pairings from the environment\<close>

lemma Split_comma_nonempty: "Split_comma s \<noteq> []"
  by (induction s) (auto split: list.splits)

lemma Split_comma_no_comma: "p \<in> set (Split_comma s) \<Longrightarrow> CHR '','' \<notin> set p"
  by (induction s arbitrary: p) (auto split: list.splits if_splits)

lemma Join_comma_Cons: "Join_comma ((a # p) # ps) = a # Join_comma (p # ps)"
  by (cases ps) simp_all

lemma Join_comma_Nil_Cons: "ps \<noteq> [] \<Longrightarrow> Join_comma ([] # ps) = CHR '','' # Join_comma ps"
  by (cases ps) simp_all

lemma Join_Split_comma: "Join_comma (Split_comma s) = s"
  by (induction s)
    (auto simp add: Join_comma_Cons Join_comma_Nil_Cons Split_comma_nonempty split: list.splits)

lemma seedLists_map:
  "seedLists ids acc = acc @ map (\<lambda>x. emptyDataPair\<lparr>ImdbListId := ReplaceAll_space x\<rparr>) ids"
  by (induction ids arbitrary: acc) simp_all

lemma NewSyncer_user_lists:
  assumes "NewSyncer e mkI mkT w = Inr s"
  shows "user_lists s =
     (if Getenv e EnvVarKeyListIds = [] \<or> Getenv e EnvVarKeyListIds = ''all'' then []
      else map (\<lambda>x. emptyDataPair\<lparr>ImdbListId := filter (\<lambda>c. c \<noteq> CHR '' '') x\<rparr>)
             (Split_comma (Getenv e EnvVarKeyListIds)))"
  using assms
  by (auto simp add: NewSyncer_def Let_def seedLists_map ReplaceAll_space_def
      split: option.splits sum.splits prod.splits)

lemma hydrateSource_discovery_calls:
  assumes "user_lists s = []"
  shows "calls (snd (hydrateSource fmt s)) = calls s @ [ImdbListsScrapeCall]"
  using assms
  by (auto simp add: hydrateSource_def split: prod.splits sum.splits dest!: invokeD)

text \<open>
  C9. When \<^verbatim>\<open>IMDB_LIST_IDS\<close> is empty or \<^verbatim>\<open>all\<close>, NewSyncer seeds no pairing, and the
  first step of hydrate then issues the scrape of all lists and nothing else. Otherwise
  the value is split on commas (the pieces contain no comma and give the value back when
  joined with commas), and each piece, with every space removed, seeds one pairing.
\<close>

theorem NewSyncer_list_ids:
  assumes "NewSyncer e mkI mkT w = Inr s"
  shows "user_lists s =
     (if Getenv e EnvVarKeyListIds = [] \<or> Getenv e EnvVarKeyListIds = ''all'' then []
      else map (\<lambda>x. emptyDataPair\<lparr>ImdbListId := filter (\<lambda>c. c \<noteq> CHR '' '') x\<rparr>)
             (Split_comma (Getenv e EnvVarKeyListIds)))
    \<and> calls (snd (hydrateSource fmt s)) =
     (if Getenv e EnvVarKeyListIds = [] \<or> Getenv e EnvVarKeyListIds = ''all''
      then calls s @ [ImdbListsScrapeCall]
      else calls (snd (cleanupLists fmt s)))
    \<and> Join_comma (Split_comma (Getenv e EnvVarKeyListIds)) = Getenv e EnvVarKeyListIds
    \<and> concat (map (filter (\<lambda>c. c = CHR '','')) (Split_comma (Getenv e EnvVarKeyListIds))) = []"
proof -
  have lists: "user_lists s =
     (if Getenv e EnvVarKeyListIds = [] \<or> Getenv e EnvVarKeyListIds = ''all'' then []
      else map (\<lambda>x. emptyDataPair\<lparr>ImdbListId := filter (\<lambda>c. c \<noteq> CHR '' '') x\<rparr>)
             (Split_comma (Getenv e EnvVarKeyListIds)))"
    by (rule NewSyncer_user_lists[OF assms])
  have source: "calls (snd (hydrateSource fmt s)) =
     (if Getenv e EnvVarKeyListIds = [] \<or> Getenv e EnvVarKeyListIds = ''all''
      then calls s @ [ImdbListsScrapeCall]
      else calls (snd (cleanupLists fmt s)))"
  proof (cases "Getenv e EnvVarKeyListIds = [] \<or> Getenv e EnvVarKeyListIds = ''all''")
    case True
    with lists have "user_lists s = []" by simp
    from hydrateSource_discovery_calls[OF this] True show ?thesis by simp
  next
    case False
    with lists have "user_lists s \<noteq> []" by (simp add: Split_comma_nonempty)
    then have "hydrateSource fmt s = wrapErr ''failure cleaning up imdb lists'' (cleanupLists fmt s)"
      by (simp add: hydrateSource_def)
    with False show ?thesis
      by (simp add: wrapErr_def split: prod.splits option.splits)
  qed
  have joined: "Join_comma (Split_comma (Getenv e EnvVarKeyListIds)) = Getenv e EnvVarKeyListIds"
    by (rule Join_Split_comma)
  have commas: "concat (map (filter (\<lambda>c. c = CHR '','')) (Split_comma (Getenv e EnvVarKeyListIds))) = []"
    using Split_comma_no_comma by (auto simp add: filter_empty_conv)
  from lists source joined commas show ?thesis by blast
qed

theorem NewSyncer_list_ids_witness:
  "NewSyncer (exampleEnv ''lsA, lsA ,lsB'') exampleNewImdbClient exampleNewTraktClient () =
     Inr (exampleStarted [''lsA'', '' lsA '', ''lsB''])
   \<and> map ImdbListId (user_lists (exampleStarted [''lsA'', '' lsA '', ''lsB''])) =
        [''lsA'', ''lsA'', ''lsB'']
   \<and> calls (snd (hydrateSource exampleFormat (exampleStarted [''lsA'', '' lsA '', ''lsB'']))) =
        calls (exampleStarted []) @ [ImdbListItemsGetCall ''lsA'', ImdbListItemsGetCall ''lsB'']
   \<and> NewSyncer (exampleEnv ''all'') exampleNewImdbClient exampleNewTraktClient () =
        Inr (exampleStarted [])
   \<and> user_lists (exampleStarted []) = []
   \<and> calls (snd (hydrateSource exampleFormat (exampleStarted []))) =
        calls (exampleStarted []) @ [ImdbListsScrapeCall]"
proof -
  have new1: "NewSyncer (exampleEnv ''lsA, lsA ,lsB'') exampleNewImdbClient exampleNewTraktClient () =
      Inr (exampleStarted [''lsA'', '' lsA '', ''lsB''])"
    by (simp add: NewSyncer_def validateEnvVars_eq Getenv_def example_defs envkey_defs
        exampleStarted_def exampleNewImdbClient_def exampleNewTraktClient_def)
  have new2: "NewSyncer (exampleEnv ''all'') exampleNewImdbClient exampleNewTraktClient () =
      Inr (exampleStarted [])"
    by (simp add: NewSyncer_def validateEnvVars_eq Getenv_def example_defs envkey_defs
        exampleStarted_def exampleNewImdbClient_def exampleNewTraktClient_def)
  have ids1: "Getenv (exampleEnv ''lsA, lsA ,lsB'') EnvVarKeyListIds = ''lsA, lsA ,lsB''"
    and ids2: "Getenv (exampleEnv ''all'') EnvVarKeyListIds = ''all''"
    by (simp_all add: Getenv_def example_defs envkey_defs)
  have cleanup: "calls (snd (cleanupLists exampleFormat (exampleStarted [''lsA'', '' lsA '', ''lsB'']))) =
      calls (exampleStarted []) @ [ImdbListItemsGetCall ''lsA'', ImdbListItemsGetCall ''lsB'']"
    by (simp add: exampleStarted_def example_defs step_defs)
  from NewSyncer_list_ids[OF new1, of exampleFormat]
       NewSyncer_list_ids[OF new2, of exampleFormat] new1 new2 cleanup
  show ?thesis
    unfolding ids1 ids2 by (simp add: emptyDataPair_def)
qed

section \<open>Hydration\<close>

lemma hydratedE:
  "hydrated p x = ((r, ps'), s') \<Longrightarrow> \<exists>rest. x = ((r, rest), s') \<and> ps' = p # rest"
  by (auto simp add: hydrated_def split: prod.splits)

lemma hydratePairs_shape:
  "hydratePairs ps s = ((r, ps'), s') \<Longrightarrow>
     map IsWatchlist ps' = map IsWatchlist ps \<and> map ImdbListName ps' = map ImdbListName ps \<and>
     user_lists s' = user_lists s \<and> user_ratings s' = user_ratings s \<and>
     imdbClient s' = imdbClient s \<and> traktClient s' = traktClient s"
proof (induction ps arbitrary: s r ps' s')
  case Nil
  then show ?case by simp
next
  case (Cons p ps)
  show ?case
    using Cons.prems
    by (auto split: if_splits prod.splits sum.splits option.splits
        dest!: invokeD hydratedE Cons.IH)
qed




lemma hydrateWatchlist_ok:
  assumes "hydrateWatchlist s = (None, s')"
  shows "\<exists>w. user_lists s' = user_lists s @ [w] \<and> IsWatchlist w \<and>
              ImdbListName w = ''watchlist''"
  using assms
  by (auto simp add: hydrateWatchlist_def split: prod.splits sum.splits dest!: invokeD)

lemma hydrateMirror_shape:
  assumes "hydrateMirror s = (r, s')"
  shows "map IsWatchlist (user_lists s') = map IsWatchlist (user_lists s) \<and>
         map ImdbListName (user_lists s') = map ImdbListName (user_lists s)"
  using assms
  by (auto simp add: hydrateMirror_def split: prod.splits dest!: hydratePairs_shape)

lemma hydrateRatings_lists:
  assumes "hydrateRatings s = (r, s')"
  shows "user_lists s' = user_lists s"
  using assms
  by (auto simp add: hydrateRatings_def split: prod.splits sum.splits dest!: invokeD)

lemma hydrate_ok_stages:
  assumes "hydrate fmt s = (None, s')"
  shows "\<exists>s1 w. hydrateSource fmt s = (None, s1) \<and> IsWatchlist w \<and>
           ImdbListName w = ''watchlist'' \<and>
           map IsWatchlist (user_lists s') = map IsWatchlist (user_lists s1 @ [w]) \<and>
           map ImdbListName (user_lists s') = map ImdbListName (user_lists s1 @ [w])"
proof -
  from assms obtain s1 s2 s3 where
    a: "hydrateSource fmt s = (None, s1)" and b: "hydrateWatchlist s1 = (None, s2)"
    and c: "hydrateMirror s2 = (None, s3)" and d: "hydrateRatings s3 = (None, s')"
    unfolding hydrate_def by (blast dest!: andThenE)
  from hydrateWatchlist_ok[OF b] obtain w where
    w: "user_lists s2 = user_lists s1 @ [w]" "IsWatchlist w" "ImdbListName w = ''watchlist''"
    by blast
  from hydrateMirror_shape[OF c] hydrateRatings_lists[OF d] w a show ?thesis
    by auto
qed



lemma last_of_map_in:
  assumes "map f xs = map f ys @ [v]"
  shows "v \<in> f ` set xs"
proof -
  have "v \<in> set (map f xs)" unfolding assms by simp
  then show ?thesis by simp
qed

lemma hydrate_contains_watchlist:
  assumes "hydrate fmt s = (None, s')"
  shows "''watchlist'' \<in> ImdbListName ` set (user_lists s')"
  using hydrate_ok_stages[OF assms] by (auto intro: last_of_map_in)



section \<open>List reconciliation\<close>

lemma contains_iff: "contains dps n \<longleftrightarrow> n \<in> ImdbListName ` set dps"
  by (induction dps) auto

lemma removedSlugs_append [simp]: "removedSlugs (xs @ ys) = removedSlugs xs @ removedSlugs ys"
  by (simp add: removedSlugs_def)

lemma removedSlugs_Nil [simp]: "removedSlugs [] = []"
  by (simp add: removedSlugs_def)

lemma removedSlugs_Cons:
  "removedSlugs (c # cs) = (case c of ListRemoveCall slug \<Rightarrow> [slug] | _ \<Rightarrow> []) @ removedSlugs cs"
  by (simp add: removedSlugs_def)

lemma removedSlugs_removes:
  "removedSlugs (map (\<lambda>l. ListRemoveCall (IdsSlug l)) ls) = map IdsSlug ls"
  by (induction ls) (simp_all add: removedSlugs_Cons)

lemma syncPairing_frame:
  assumes "syncPairing utc p s = (r, s')"
  shows "user_lists s' = user_lists s \<and> user_ratings s' = user_ratings s \<and>
         imdbClient s' = imdbClient s \<and> traktClient s' = traktClient s \<and>
         removedSlugs (calls s') = removedSlugs (calls s)"
  using assms
  by (auto simp add: syncPairing_def Let_def andThen_def wrapErr_def removedSlugs_Cons
      split: if_splits prod.splits option.splits dest!: invokeD)

lemma syncPairings_frame:
  "syncPairings utc ps s = (r, s') \<Longrightarrow>
     user_lists s' = user_lists s \<and> user_ratings s' = user_ratings s \<and>
     imdbClient s' = imdbClient s \<and> traktClient s' = traktClient s \<and>
     removedSlugs (calls s') = removedSlugs (calls s)"
proof (induction ps arbitrary: s r s')
  case Nil
  then show ?case by simp
next
  case (Cons p ps)
  show ?case
  proof (cases "syncPairing utc p s")
    case (Pair r1 s1)
    note frame1 = syncPairing_frame[OF Pair]
    show ?thesis
    proof (cases r1)
      case None
      with Cons.prems Pair have "syncPairings utc ps s1 = (r, s')"
        by (simp add: andThen_def)
      from Cons.IH[OF this] frame1 show ?thesis by simp
    next
      case (Some e)
      with Cons.prems Pair have "s' = s1" by (simp add: andThen_def)
      with frame1 show ?thesis by simp
    qed
  qed
qed

lemma removeOrphans_ok_calls:
  "removeOrphans dps tls s = (None, s') \<Longrightarrow>
     calls s' = calls s @ map (\<lambda>l. ListRemoveCall (IdsSlug l))
                            (filter (\<lambda>l. \<not> contains dps (Name l)) tls)"
proof (induction tls arbitrary: s)
  case Nil
  then show ?case by simp
next
  case (Cons l tls)
  show ?case
  proof (cases "contains dps (Name l)")
    case True
    with Cons show ?thesis by simp
  next
    case False
    with Cons.prems obtain s1 where
      inv: "invoke (ListRemoveCall (IdsSlug l)) (ListRemove (traktClient s) (IdsSlug l)) s = (None, s1)"
      and rest: "removeOrphans dps tls s1 = (None, s')"
      by (auto simp add: wrapErr_None dest!: andThenE)
    from Cons.IH[OF rest] invokeD[OF inv] False show ?thesis by simp
  qed
qed

lemma removeOrphans_calls:
  "\<exists>n. calls (snd (removeOrphans dps tls s)) =
        calls s @ map (\<lambda>l. ListRemoveCall (IdsSlug l))
                      (take n (filter (\<lambda>l. \<not> contains dps (Name l)) tls))"
proof (induction tls arbitrary: s)
  case Nil
  then show ?case by simp
next
  case (Cons l tls)
  show ?case
  proof (cases "contains dps (Name l)")
    case True
    with Cons.IH[of s] show ?thesis by simp
  next
    case False
    obtain r s1 where
      inv: "invoke (ListRemoveCall (IdsSlug l)) (ListRemove (traktClient s) (IdsSlug l)) s = (r, s1)"
      by (cases "invoke (ListRemoveCall (IdsSlug l)) (ListRemove (traktClient s) (IdsSlug l)) s")
    note c1 = invokeD[OF inv]
    show ?thesis
    proof (cases r)
      case None
      from Cons.IH[of s1] obtain n where
        n: "calls (snd (removeOrphans dps tls s1)) =
            calls s1 @ map (\<lambda>l. ListRemoveCall (IdsSlug l))
                          (take n (filter (\<lambda>l. \<not> contains dps (Name l)) tls))"
        by blast
      have "calls (snd (removeOrphans dps (l # tls) s)) =
            calls s @ map (\<lambda>l. ListRemoveCall (IdsSlug l))
                          (take (Suc n) (filter (\<lambda>l. \<not> contains dps (Name l)) (l # tls)))"
        using False inv None n c1 by (simp add: andThen_def wrapErr_def)
      then show ?thesis by blast
    next
      case (Some e)
      have "calls (snd (removeOrphans dps (l # tls) s)) =
            calls s @ map (\<lambda>l. ListRemoveCall (IdsSlug l))
                          (take (Suc 0) (filter (\<lambda>l. \<not> contains dps (Name l)) (l # tls)))"
        using False inv Some c1 by (simp add: andThen_def wrapErr_def)
      then show ?thesis by blast
    qed
  qed
qed

lemma removeOrphans_skip_named:
  fixes s :: "'w Syncer"
  assumes "contains dps w"
  shows "removeOrphans dps tls s = removeOrphans dps (filter (\<lambda>l. Name l \<noteq> w) tls) s"
proof (induction tls arbitrary: s)
  case Nil
  then show ?case by simp
next
  case (Cons l tls)
  have "(removeOrphans dps tls :: 'w Syncer \<Rightarrow> _) =
        removeOrphans dps (filter (\<lambda>l. Name l \<noteq> w) tls)"
    by (rule ext) (rule Cons.IH)
  then show ?case using assms by auto
qed

lemma filter_orphans_named:
  assumes "contains dps w"
  shows "filter (\<lambda>l. \<not> contains dps (Name l)) tls =
         filter (\<lambda>l. Name l \<noteq> w \<and> \<not> contains dps (Name l)) tls"
  using assms by (induction tls) auto

text \<open>
  C4. In a list reconciliation that succeeds, the pairings are processed first, without
  any deletion; then the index of the mirror's lists is fetched; and the calls issued
  after that fetch are exactly one deletion, by slug and in the order of the index, for
  each entry of the index whose name is the display name of no pairing. An entry whose
  name is the display name of some pairing, the watchlist pairing among them, gives no
  deletion.
\<close>

theorem syncLists_orphan_cleanup:
  assumes "syncLists utc s = (None, s')"
  shows "\<exists>s1 s2 traktLists.
           syncPairings utc (user_lists s) s = (None, s1) \<and>
           invoke ListsGetCall (ListsGet (traktClient s1)) s1 = (Inr traktLists, s2) \<and>
           removedSlugs (calls s2) = removedSlugs (calls s) \<and>
           calls s' = calls s2 @ map (\<lambda>l. ListRemoveCall (IdsSlug l))
             (filter (\<lambda>l. Name l \<notin> ImdbListName ` set (user_lists s)) traktLists) \<and>
           removedSlugs (calls s') = removedSlugs (calls s) @ map IdsSlug
             (filter (\<lambda>l. Name l \<notin> ImdbListName ` set (user_lists s)) traktLists)"
proof -
  from assms obtain s1 where
    pairs: "syncPairings utc (user_lists s) s = (None, s1)"
    and rest: "(case invoke ListsGetCall (ListsGet (traktClient s1)) s1 of
         (Inl err, s2) \<Rightarrow> (Some (Wrapped ''failure fetching trakt lists'' err), s2)
       | (Inr traktLists, s2) \<Rightarrow> removeOrphans (user_lists s2) traktLists s2) = (None, s')"
    unfolding syncLists_def by (blast dest!: andThenE)
  from rest obtain traktLists s2 where
    get: "invoke ListsGetCall (ListsGet (traktClient s1)) s1 = (Inr traktLists, s2)"
    and orphans: "removeOrphans (user_lists s2) traktLists s2 = (None, s')"
    by (auto split: prod.splits sum.splits)
  note f1 = syncPairings_frame[OF pairs] and f2 = invokeD[OF get]
  have lists: "user_lists s2 = user_lists s" using f1 f2 by simp
  have before: "removedSlugs (calls s2) = removedSlugs (calls s)"
    using f1 f2 by (simp add: removedSlugs_Cons)
  have after: "calls s' = calls s2 @ map (\<lambda>l. ListRemoveCall (IdsSlug l))
      (filter (\<lambda>l. Name l \<notin> ImdbListName ` set (user_lists s)) traktLists)"
    using removeOrphans_ok_calls[OF orphans] by (simp add: lists contains_iff)
  have "removedSlugs (calls s') = removedSlugs (calls s) @ map IdsSlug
      (filter (\<lambda>l. Name l \<notin> ImdbListName ` set (user_lists s)) traktLists)"
    unfolding after by (simp add: before removedSlugs_removes)
  with pairs get before after show ?thesis by blast
qed

theorem syncLists_orphan_cleanup_witness:
  "fst (syncLists exampleUtc (snd (hydrate exampleFormat (exampleSyncer [''lsA''])))) = None
   \<and> map ImdbListName (user_lists (snd (hydrate exampleFormat (exampleSyncer [''lsA''])))) =
        [''List lsA'', ''watchlist'']
   \<and> map Name (projr (fst (ListsGet exampleTraktClient ()))) =
        [''List lsA'', ''Old list'', ''watchlist'']
   \<and> removedSlugs (calls (snd (syncLists exampleUtc
        (snd (hydrate exampleFormat (exampleSyncer [''lsA'']))))))  = [''old-list'']"
proof -
  let ?h = "snd (hydrate exampleFormat (exampleSyncer [''lsA'']))"
  have h: "?h = \<lparr>imdbClient = exampleImdbClient, traktClient = exampleTraktClient,
      user_lists = [\<lparr>ImdbList = [rated ''tt1'' 9], ImdbListId = ''lsA'',
                      ImdbListName = ''List lsA'', TraktList = [],
                      TraktListId = ''List-lsA'', IsWatchlist = False\<rparr>,
                    \<lparr>ImdbList = [], ImdbListId = ''ls0'', ImdbListName = ''watchlist'',
                      TraktList = [], TraktListId = [], IsWatchlist = True\<rparr>],
      user_ratings = emptyDataPair\<lparr>ImdbList := [rated ''tt1'' 9, rated ''tt2'' 7, rated ''tt3'' 5],
                       TraktList := [mirrorMovie ''tt1'' 8, mirrorMovie ''tt9'' 6]\<rparr>,
      world = (),
      calls = [ImdbListItemsGetCall ''lsA'', ImdbWatchlistGetCall, ListItemsGetCall ''List-lsA'',
               ListAddCall ''List-lsA'' ''List lsA'', WatchlistItemsGetCall,
               ImdbRatingsGetCall, RatingsGetCall]\<rparr>"
    by (simp add: exampleSyncer_def exampleImdbClient_def exampleTraktClient_def
        exampleFormat_def emptyDataPair_def step_defs)
  have ok: "syncLists exampleUtc ?h = (None, snd (syncLists exampleUtc ?h))"
    unfolding h
    by (simp add: prod_eq_iff syncLists_def syncPairing_def Difference_def mirrorKeys_def
        sourceKeys_def Let_def andThen_def wrapErr_def invoke_def exampleTraktClient_def)
  have index: "map Name (projr (fst (ListsGet exampleTraktClient ()))) =
      [''List lsA'', ''Old list'', ''watchlist'']"
    by (simp add: exampleTraktClient_def)
  from syncLists_orphan_cleanup[OF ok] obtain s1 s2 traktLists where
    pairs: "syncPairings exampleUtc (user_lists ?h) ?h = (None, s1)"
    and get: "invoke ListsGetCall (ListsGet (traktClient s1)) s1 = (Inr traktLists, s2)"
    and removed: "removedSlugs (calls (snd (syncLists exampleUtc ?h))) =
      removedSlugs (calls ?h) @ map IdsSlug
        (filter (\<lambda>l. Name l \<notin> ImdbListName ` set (user_lists ?h)) traktLists)"
    by blast
  have "traktClient s1 = exampleTraktClient"
    using syncPairings_frame[OF pairs] by (simp add: h)
  with get have index': "traktLists = projr (fst (ListsGet exampleTraktClient ()))"
    by (auto simp add: invoke_def exampleTraktClient_def)
  have "removedSlugs (calls (snd (syncLists exampleUtc ?h))) = [''old-list'']"
    unfolding removed index' by (simp add: h exampleTraktClient_def removedSlugs_Cons)
  with ok index show ?thesis
    by (simp add: prod_eq_iff h)
qed

text \<open>
  C10. After a hydration that succeeds, some pairing has the display name \<open>watchlist\<close>.
  List reconciliation therefore behaves exactly as if the index of the mirror's lists held
  no entry with that name, and whatever index is fetched and whatever the outcome, the
  deletions it issues are for a leading part of the entries that are not named
  \<open>watchlist\<close> and match no pairing.
\<close>

theorem watchlist_name_never_deleted:
  assumes "hydrate fmt s = (None, s1)"
  shows "contains (user_lists s1) ''watchlist'' \<and>
         syncLists utc s1 =
           andThen (syncPairings utc (user_lists s1) s1) (\<lambda>sa.
             case invoke ListsGetCall (ListsGet (traktClient sa)) sa of
               (Inl err, sb) \<Rightarrow> (Some (Wrapped ''failure fetching trakt lists'' err), sb)
             | (Inr traktLists, sb) \<Rightarrow>
                 removeOrphans (user_lists sb)
                   (filter (\<lambda>l. Name l \<noteq> ''watchlist'') traktLists) sb) \<and>
         (\<exists>n. calls (snd (removeOrphans (user_lists s1) traktLists sb)) =
               calls sb @ map (\<lambda>l. ListRemoveCall (IdsSlug l))
                 (take n (filter (\<lambda>l. Name l \<noteq> ''watchlist'' \<and>
                                       \<not> contains (user_lists s1) (Name l)) traktLists)))"
proof -
  have named: "contains (user_lists s1) ''watchlist''"
    using hydrate_contains_watchlist[OF assms] by (simp add: contains_iff)
  have same: "syncLists utc s1 =
           andThen (syncPairings utc (user_lists s1) s1) (\<lambda>sa.
             case invoke ListsGetCall (ListsGet (traktClient sa)) sa of
               (Inl err, sb) \<Rightarrow> (Some (Wrapped ''failure fetching trakt lists'' err), sb)
             | (Inr traktLists, sb) \<Rightarrow>
                 removeOrphans (user_lists sb)
                   (filter (\<lambda>l. Name l \<noteq> ''watchlist'') traktLists) sb)"
  proof (cases "syncPairings utc (user_lists s1) s1")
    case (Pair r sa)
    show ?thesis
    proof (cases r)
      case (Some e)
      with Pair show ?thesis by (simp add: syncLists_def andThen_def)
    next
      case None
      with Pair have lists: "user_lists sa = user_lists s1"
        using syncPairings_frame[OF Pair] by simp
      show ?thesis
      proof (cases "invoke ListsGetCall (ListsGet (traktClient sa)) sa")
        case (Pair res sb)
        then have "user_lists sb = user_lists s1"
          using invokeD[OF Pair] lists by simp
        with named have "removeOrphans (user_lists sb) tls sb =
            removeOrphans (user_lists sb) (filter (\<lambda>l. Name l \<noteq> ''watchlist'') tls) sb" for tls
          using removeOrphans_skip_named[of "user_lists sb" "''watchlist''" tls sb] by simp
        with Pair None \<open>syncPairings utc (user_lists s1) s1 = (r, sa)\<close> show ?thesis
          by (simp add: syncLists_def andThen_def split: sum.splits)
      qed
    qed
  qed
  from removeOrphans_calls[of "user_lists s1" traktLists sb] obtain n where
    "calls (snd (removeOrphans (user_lists s1) traktLists sb)) =
       calls sb @ map (\<lambda>l. ListRemoveCall (IdsSlug l))
         (take n (filter (\<lambda>l. \<not> contains (user_lists s1) (Name l)) traktLists))"
    by blast
  then have "calls (snd (removeOrphans (user_lists s1) traktLists sb)) =
       calls sb @ map (\<lambda>l. ListRemoveCall (IdsSlug l))
         (take n (filter (\<lambda>l. Name l \<noteq> ''watchlist'' \<and>
                               \<not> contains (user_lists s1) (Name l)) traktLists))"
    using filter_orphans_named[OF named, of traktLists] by simp
  with named same show ?thesis by blast
qed

theorem watchlist_name_never_deleted_witness:
  "fst (hydrate exampleFormat (exampleSyncer [''lsB''])) = None
   \<and> contains (user_lists (snd (hydrate exampleFormat (exampleSyncer [''lsB''])))) ''watchlist''
   \<and> map Name (projr (fst (ListsGet exampleTraktClient ()))) =
        [''List lsA'', ''Old list'', ''watchlist'']
   \<and> removedSlugs (calls (snd (syncLists exampleUtc
        (snd (hydrate exampleFormat (exampleSyncer [''lsB''])))))) = [''list-lsa'', ''old-list'']"
proof -
  let ?h = "snd (hydrate exampleFormat (exampleSyncer [''lsB'']))"
  have ok: "hydrate exampleFormat (exampleSyncer [''lsB'']) = (None, ?h)"
    by (simp add: prod_eq_iff example_defs step_defs)
  have h: "?h = \<lparr>imdbClient = exampleImdbClient, traktClient = exampleTraktClient,
      user_lists = [\<lparr>ImdbList = [rated ''tt1'' 9], ImdbListId = ''lsB'',
                      ImdbListName = ''List lsB'', TraktList = [],
                      TraktListId = ''List-lsB'', IsWatchlist = False\<rparr>,
                    \<lparr>ImdbList = [], ImdbListId = ''ls0'', ImdbListName = ''watchlist'',
                      TraktList = [], TraktListId = [], IsWatchlist = True\<rparr>],
      user_ratings = emptyDataPair\<lparr>ImdbList := [rated ''tt1'' 9, rated ''tt2'' 7, rated ''tt3'' 5],
                       TraktList := [mirrorMovie ''tt1'' 8, mirrorMovie ''tt9'' 6]\<rparr>,
      world = (),
      calls = [ImdbListItemsGetCall ''lsB'', ImdbWatchlistGetCall, ListItemsGetCall ''List-lsB'',
               ListAddCall ''List-lsB'' ''List lsB'', WatchlistItemsGetCall,
               ImdbRatingsGetCall, RatingsGetCall]\<rparr>"
    by (simp add: exampleSyncer_def exampleImdbClient_def exampleTraktClient_def
        exampleFormat_def emptyDataPair_def step_defs)
  have index: "map Name (projr (fst (ListsGet exampleTraktClient ()))) =
      [''List lsA'', ''Old list'', ''watchlist'']"
    by (simp add: exampleTraktClient_def)
  note t = watchlist_name_never_deleted[OF ok, of exampleUtc]
  from t have named: "contains (user_lists ?h) ''watchlist''" by blast
  from t have same: "syncLists exampleUtc ?h =
           andThen (syncPairings exampleUtc (user_lists ?h) ?h) (\<lambda>sa.
             case invoke ListsGetCall (ListsGet (traktClient sa)) sa of
               (Inl err, sb) \<Rightarrow> (Some (Wrapped ''failure fetching trakt lists'' err), sb)
             | (Inr traktLists, sb) \<Rightarrow>
                 removeOrphans (user_lists sb)
                   (filter (\<lambda>l. Name l \<noteq> ''watchlist'') traktLists) sb)"
    by blast
  have "removedSlugs (calls (snd (syncLists exampleUtc ?h))) = [''list-lsa'', ''old-list'']"
    unfolding same unfolding h
    by (simp add: syncPairing_def Difference_def mirrorKeys_def
        sourceKeys_def Let_def andThen_def wrapErr_def invoke_def exampleTraktClient_def
        removedSlugs_Cons)
  with ok named index show ?thesis
    by (simp add: prod_eq_iff)
qed

section \<open>The diff\<close>

lemma type_tags_distinct:
  "TraktItemTypeMovie \<noteq> TraktItemTypeShow" "TraktItemTypeMovie \<noteq> TraktItemTypeEpisode"
  "TraktItemTypeShow \<noteq> TraktItemTypeEpisode"
  "TraktItemTypeShow \<noteq> TraktItemTypeMovie" "TraktItemTypeEpisode \<noteq> TraktItemTypeMovie"
  "TraktItemTypeEpisode \<noteq> TraktItemTypeShow"
  by (simp_all add: TraktItemTypeMovie_def TraktItemTypeShow_def TraktItemTypeEpisode_def)

lemma itemKey_traktItemOf [simp]: "itemKey (traktItemOf utc x) = Some (ItemId x)"
  by (cases "TitleType x")
    (simp_all add: itemKey_def GetItemId_def traktItemOf_def Let_def type_tags_distinct)

lemma diff_add_keys:
  "itemKey ` set (diff_add (Difference utc dp)) = sourceKeys dp - mirrorKeys dp"
  by (auto simp add: Difference_def sourceKeys_def image_iff)

lemma diff_remove_keys:
  "itemKey ` set (diff_remove (Difference utc dp)) = mirrorKeys dp - sourceKeys dp"
  by (auto simp add: Difference_def mirrorKeys_def image_iff)

text \<open>
  C1. For the diff of a pairing: toAdd is the source items whose key is not a key of the
  mirror, each written as a mirror item with the same key, in the source's order; toRemove
  is the mirror items whose key is not a key of the source, in the mirror's order. Hence
  the keys of toAdd are the source keys that are not mirror keys, the keys of toRemove
  are the mirror keys that are not source keys, the two sets of keys are disjoint, and a
  key present on both sides is the key of no item of either.
\<close>

theorem Difference_by_key:
  "diff_add (Difference utc dp) =
     map (traktItemOf utc) (filter (\<lambda>x. Some (ItemId x) \<notin> mirrorKeys dp) (ImdbList dp))
   \<and> map itemKey (diff_add (Difference utc dp)) =
     map (\<lambda>x. Some (ItemId x)) (filter (\<lambda>x. Some (ItemId x) \<notin> mirrorKeys dp) (ImdbList dp))
   \<and> diff_remove (Difference utc dp) =
     filter (\<lambda>y. itemKey y \<notin> sourceKeys dp) (TraktList dp)
   \<and> itemKey ` set (diff_add (Difference utc dp)) = sourceKeys dp - mirrorKeys dp
   \<and> itemKey ` set (diff_remove (Difference utc dp)) = mirrorKeys dp - sourceKeys dp
   \<and> itemKey ` set (diff_add (Difference utc dp)) \<inter>
       itemKey ` set (diff_remove (Difference utc dp)) = {}
   \<and> (sourceKeys dp \<inter> mirrorKeys dp) \<inter>
       (itemKey ` set (diff_add (Difference utc dp)) \<union>
        itemKey ` set (diff_remove (Difference utc dp))) = {}"
proof -
  have "map itemKey (diff_add (Difference utc dp)) =
     map (\<lambda>x. Some (ItemId x)) (filter (\<lambda>x. Some (ItemId x) \<notin> mirrorKeys dp) (ImdbList dp))"
    by (simp add: Difference_def comp_def)
  moreover have "diff_add (Difference utc dp) =
     map (traktItemOf utc) (filter (\<lambda>x. Some (ItemId x) \<notin> mirrorKeys dp) (ImdbList dp))"
    and "diff_remove (Difference utc dp) =
     filter (\<lambda>y. itemKey y \<notin> sourceKeys dp) (TraktList dp)"
    by (simp_all add: Difference_def)
  ultimately show ?thesis
    unfolding diff_add_keys diff_remove_keys by blast
qed

theorem Difference_by_key_witness:
  "map itemKey (diff_add (Difference exampleUtc
      (emptyDataPair\<lparr>ImdbList := [rated ''tt1'' 9, rated ''tt2'' 7, rated ''tt3'' 5],
                      TraktList := [mirrorMovie ''tt1'' 8, mirrorMovie ''tt9'' 6]\<rparr>))) =
     [Some ''tt2'', Some ''tt3'']
   \<and> diff_remove (Difference exampleUtc
      (emptyDataPair\<lparr>ImdbList := [rated ''tt1'' 9, rated ''tt2'' 7, rated ''tt3'' 5],
                      TraktList := [mirrorMovie ''tt1'' 8, mirrorMovie ''tt9'' 6]\<rparr>)) =
     [mirrorMovie ''tt9'' 6]"
proof -
  let ?dp = "emptyDataPair\<lparr>ImdbList := [rated ''tt1'' 9, rated ''tt2'' 7, rated ''tt3'' 5],
                      TraktList := [mirrorMovie ''tt1'' 8, mirrorMovie ''tt9'' 6]\<rparr>"
  have keys: "mirrorKeys ?dp = {Some ''tt1'', Some ''tt9''}"
    "sourceKeys ?dp = {Some ''tt1'', Some ''tt2'', Some ''tt3''}"
    by (auto simp add: mirrorKeys_def sourceKeys_def itemKey_def GetItemId_def rated_def
        mirrorMovie_def)
  have k: "itemKey (mirrorMovie i r) = Some i" for i r
    by (simp add: itemKey_def GetItemId_def mirrorMovie_def)
  from Difference_by_key[of exampleUtc ?dp] show ?thesis
    unfolding keys by (simp add: k) (simp add: rated_def)
qed

section \<open>Rating reconciliation\<close>

lemma historyToAddLoop_frame:
  "historyToAddLoop xs acc s = (r, s') \<Longrightarrow>
     user_lists s' = user_lists s \<and> user_ratings s' = user_ratings s \<and>
     imdbClient s' = imdbClient s \<and> traktClient s' = traktClient s"
proof (induction xs arbitrary: acc s)
  case Nil
  then show ?case by simp
next
  case (Cons x xs)
  show ?case
    using Cons.prems
    by (auto split: sum.splits prod.splits if_splits dest!: invokeD Cons.IH)
qed

lemma historyToRemoveLoop_frame:
  "historyToRemoveLoop xs acc s = (r, s') \<Longrightarrow>
     user_lists s' = user_lists s \<and> user_ratings s' = user_ratings s \<and>
     imdbClient s' = imdbClient s \<and> traktClient s' = traktClient s"
proof (induction xs arbitrary: acc s)
  case Nil
  then show ?case by simp
next
  case (Cons x xs)
  show ?case
    using Cons.prems
    by (auto split: sum.splits prod.splits if_splits dest!: invokeD Cons.IH)
qed

lemma syncRatingsAdd_frame:
  assumes "syncRatingsAdd toAdd s = (r, s')"
  shows "user_lists s' = user_lists s \<and> user_ratings s' = user_ratings s \<and>
         imdbClient s' = imdbClient s \<and> traktClient s' = traktClient s"
  using assms
  by (auto simp add: syncRatingsAdd_def andThen_def wrapErr_def
      split: if_splits prod.splits option.splits sum.splits
      dest!: invokeD historyToAddLoop_frame)

lemma syncRatingsRemove_frame:
  assumes "syncRatingsRemove toRemove s = (r, s')"
  shows "user_lists s' = user_lists s \<and> user_ratings s' = user_ratings s \<and>
         imdbClient s' = imdbClient s \<and> traktClient s' = traktClient s"
  using assms
  by (auto simp add: syncRatingsRemove_def andThen_def wrapErr_def
      split: if_splits prod.splits option.splits sum.splits
      dest!: invokeD historyToRemoveLoop_frame)

lemma scanTraktList_eq:
  "scanTraktList utc i r ts acc = acc @ List.map_filter (updated utc i r) ts"
  by (induction ts arbitrary: acc) (simp_all add: List.map_filter_simps split: option.splits)

lemma scanImdbList_eq:
  "scanImdbList utc is ts acc =
     acc @ concat (map (\<lambda>i. case Rating i of
                              None \<Rightarrow> []
                            | Some r \<Rightarrow> List.map_filter (updated utc i r) ts) is)"
  by (induction "is" arbitrary: acc) (simp_all add: scanTraktList_eq split: option.splits)

lemma updated_in_scan:
  assumes "i \<in> set is" and "t \<in> set ts" and "Rating i = Some r"
    and "updated utc i r t = Some t'"
  shows "t' \<in> set (scanImdbList utc is ts [])"
proof -
  from assms(2,4) have "t' \<in> set (List.map_filter (updated utc i r) ts)"
    by (auto simp add: List.map_filter_def intro!: image_eqI[where x = t])
  with assms(1,3) show ?thesis
    by (auto simp add: scanImdbList_eq intro!: bexI[where x = i])
qed

lemma updated_match:
  assumes "itemKey t = Some (ItemId i)" and "r \<noteq> TraktRating t" and "Rating i = Some r"
  shows "\<exists>t'. updated utc i r t = Some t' \<and> itemKey t' = itemKey t \<and> Type t' = Type t \<and>
           TraktRating t' = TraktRating t \<and>
           map_option SpecRating (keyedSpec t') = Some (Some r) \<and>
           map_option RatedAt (keyedSpec t') = Some (Some (utc (RatingDate i)))"
  using assms
  by (auto simp add: itemKey_def GetItemId_def updated_def keyedSpec_def stamp_def
      type_tags_distinct split: if_splits)

lemma syncRatings_last_call:
  assumes ok: "syncRatings utc s = (None, s')"
    and batch: "scanImdbList utc (ImdbList (user_ratings s)) (TraktList (user_ratings s)) [] \<noteq> []"
  shows "last (calls s') = RatingsAddCall
           (scanImdbList utc (ImdbList (user_ratings s)) (TraktList (user_ratings s)) [])"
proof -
  from ok obtain s1 s2 where
    a: "syncRatingsAdd (diff_add (Difference utc (user_ratings s))) s = (None, s1)"
    and b: "syncRatingsRemove (diff_remove (Difference utc (user_ratings s))) s1 = (None, s2)"
    and c: "syncRatingsUpdate utc s2 = (None, s')"
    unfolding syncRatings_def Let_def by (blast dest!: andThenE)
  have "user_ratings s2 = user_ratings s"
    using syncRatingsAdd_frame[OF a] syncRatingsRemove_frame[OF b] by simp
  with c batch show ?thesis
    by (auto simp add: syncRatingsUpdate_def Let_def wrapErr_None dest!: invokeD)
qed

text \<open>
  C2. Take a source rating \<open>i\<close> with the value \<open>r\<close> and a mirror rating \<open>t\<close> with the
  same key and another value. Then the key is the key of no item of toAdd or toRemove.
  The update scan puts into its batch the mirror item \<open>t\<close> with the sub-record of its
  type stamped: the rating is \<open>r\<close> and the date is the source's rating date as a UTC
  string; key, type and the top-level rating are as in \<open>t\<close>. The batch is the stamped
  matches of the scan, in scan order. The update step issues exactly one call, the
  rating-add of that batch, and in a rating reconciliation that succeeds it is the
  last call.
\<close>

theorem rating_update:
  assumes src: "i \<in> set (ImdbList (user_ratings s))"
    and mir: "t \<in> set (TraktList (user_ratings s))"
    and rated: "Rating i = Some r"
    and same: "itemKey t = Some (ItemId i)"
    and differs: "r \<noteq> TraktRating t"
  shows "itemKey t \<notin> itemKey ` set (diff_add (Difference utc (user_ratings s))) \<and>
         itemKey t \<notin> itemKey ` set (diff_remove (Difference utc (user_ratings s))) \<and>
         (\<exists>t'. updated utc i r t = Some t' \<and>
            t' \<in> set (scanImdbList utc (ImdbList (user_ratings s)) (TraktList (user_ratings s)) []) \<and>
            itemKey t' = itemKey t \<and> Type t' = Type t \<and> TraktRating t' = TraktRating t \<and>
            map_option SpecRating (keyedSpec t') = Some (Some r) \<and>
            map_option RatedAt (keyedSpec t') = Some (Some (utc (RatingDate i)))) \<and>
         scanImdbList utc (ImdbList (user_ratings s)) (TraktList (user_ratings s)) [] =
           concat (map (\<lambda>i. case Rating i of
                               None \<Rightarrow> []
                             | Some r \<Rightarrow> List.map_filter (updated utc i r)
                                          (TraktList (user_ratings s)))
                       (ImdbList (user_ratings s))) \<and>
         calls (snd (syncRatingsUpdate utc s)) = calls s @
           [RatingsAddCall
             (scanImdbList utc (ImdbList (user_ratings s)) (TraktList (user_ratings s)) [])] \<and>
         (fst (syncRatings utc s) = None \<longrightarrow>
            last (calls (snd (syncRatings utc s))) = RatingsAddCall
              (scanImdbList utc (ImdbList (user_ratings s)) (TraktList (user_ratings s)) []))"
proof -
  let ?batch = "scanImdbList utc (ImdbList (user_ratings s)) (TraktList (user_ratings s)) []"
  have "itemKey t \<in> mirrorKeys (user_ratings s)"
    using mir by (simp add: mirrorKeys_def)
  moreover have "Some (ItemId i) \<in> sourceKeys (user_ratings s)"
    using src by (simp add: sourceKeys_def)
  ultimately have both: "itemKey t \<in> sourceKeys (user_ratings s) \<inter> mirrorKeys (user_ratings s)"
    using same by simp
  then have notadd: "itemKey t \<notin> itemKey ` set (diff_add (Difference utc (user_ratings s)))"
    and notremove: "itemKey t \<notin> itemKey ` set (diff_remove (Difference utc (user_ratings s)))"
    unfolding diff_add_keys diff_remove_keys by simp_all
  from updated_match[OF same differs rated, of utc] obtain t' where
    t': "updated utc i r t = Some t'" "itemKey t' = itemKey t" "Type t' = Type t"
      "TraktRating t' = TraktRating t" "map_option SpecRating (keyedSpec t') = Some (Some r)"
      "map_option RatedAt (keyedSpec t') = Some (Some (utc (RatingDate i)))"
    by blast
  have inbatch: "t' \<in> set ?batch"
    by (rule updated_in_scan[OF src mir rated t'(1)])
  then have ne: "?batch \<noteq> []" by auto
  have scan: "?batch = concat (map (\<lambda>i. case Rating i of
                               None \<Rightarrow> []
                             | Some r \<Rightarrow> List.map_filter (updated utc i r)
                                          (TraktList (user_ratings s)))
                       (ImdbList (user_ratings s)))"
    by (simp add: scanImdbList_eq)
  have one: "calls (snd (syncRatingsUpdate utc s)) = calls s @ [RatingsAddCall ?batch]"
    using ne
    by (auto simp add: syncRatingsUpdate_def Let_def wrapErr_def
        split: prod.splits option.splits dest!: invokeD)
  have last: "fst (syncRatings utc s) = None \<longrightarrow>
      last (calls (snd (syncRatings utc s))) = RatingsAddCall ?batch"
  proof
    assume "fst (syncRatings utc s) = None"
    then have "syncRatings utc s = (None, snd (syncRatings utc s))"
      by (simp add: prod_eq_iff)
    from syncRatings_last_call[OF this ne] show
      "last (calls (snd (syncRatings utc s))) = RatingsAddCall ?batch" .
  qed
  from notadd notremove t' inbatch scan one last show ?thesis by blast
qed

lemmas ratings_defs = syncRatings_def syncRatingsAdd_def syncRatingsRemove_def
  syncRatingsUpdate_def Difference_def mirrorKeys_def sourceKeys_def itemKey_def GetItemId_def
  traktItemOf_def updated_def stamp_def Let_def andThen_def wrapErr_def invoke_def
  TraktItemTypeMovie_def TraktItemTypeShow_def TraktItemTypeEpisode_def

theorem rating_update_witness:
  "rated ''tt1'' 9 \<in> set (ImdbList (user_ratings exampleRated))
   \<and> mirrorMovie ''tt1'' 8 \<in> set (TraktList (user_ratings exampleRated))
   \<and> itemKey (mirrorMovie ''tt1'' 8) = Some ''tt1''
   \<and> scanImdbList exampleUtc (ImdbList (user_ratings exampleRated))
        (TraktList (user_ratings exampleRated)) [] =
      [(mirrorMovie ''tt1'' 8)\<lparr>Movie := \<lparr>IdsImdb = ''tt1'',
          RatedAt = Some ''2023-05-01 10:00:00 +0000 UTC'', SpecRating = Some 9\<rparr>\<rparr>]
   \<and> fst (syncRatings exampleUtc exampleRated) = None
   \<and> last (calls (snd (syncRatings exampleUtc exampleRated))) =
      RatingsAddCall [(mirrorMovie ''tt1'' 8)\<lparr>Movie := \<lparr>IdsImdb = ''tt1'',
          RatedAt = Some ''2023-05-01 10:00:00 +0000 UTC'', SpecRating = Some 9\<rparr>\<rparr>]"
proof -
  have src: "rated ''tt1'' 9 \<in> set (ImdbList (user_ratings exampleRated))"
    and mir: "mirrorMovie ''tt1'' 8 \<in> set (TraktList (user_ratings exampleRated))"
    by (simp_all add: exampleRated_def exampleRatings_def emptyDataPair_def)
  have rated: "Rating (rated ''tt1'' 9) = Some 9"
    and same: "itemKey (mirrorMovie ''tt1'' 8) = Some (ItemId (rated ''tt1'' 9))"
    and differs: "(9::int) \<noteq> TraktRating (mirrorMovie ''tt1'' 8)"
    by (simp_all add: rated_def mirrorMovie_def itemKey_def GetItemId_def)
  have scan: "scanImdbList exampleUtc (ImdbList (user_ratings exampleRated))
        (TraktList (user_ratings exampleRated)) [] =
      [(mirrorMovie ''tt1'' 8)\<lparr>Movie := \<lparr>IdsImdb = ''tt1'',
          RatedAt = Some ''2023-05-01 10:00:00 +0000 UTC'', SpecRating = Some 9\<rparr>\<rparr>]"
    by (simp add: exampleRated_def exampleRatings_def emptyDataPair_def rated_def
        mirrorMovie_def updated_def stamp_def exampleUtc_def emptySpec_def
        TraktItemTypeMovie_def TraktItemTypeShow_def TraktItemTypeEpisode_def)
  have ok: "fst (syncRatings exampleUtc exampleRated) = None"
    by (simp add: exampleRated_def exampleRatings_def example_defs ratings_defs)
  from rating_update[OF src mir rated same differs, of exampleUtc] ok
  have "last (calls (snd (syncRatings exampleUtc exampleRated))) =
      RatingsAddCall (scanImdbList exampleUtc (ImdbList (user_ratings exampleRated))
        (TraktList (user_ratings exampleRated)) [])"
    by blast
  with src mir same scan ok show ?thesis
    by (simp add: rated_def)
qed

section \<open>History of added ratings\<close>

lemma historyAdds_append [simp]: "historyAdds (xs @ ys) = historyAdds xs @ historyAdds ys"
  by (simp add: historyAdds_def)

lemma historyAdds_Nil [simp]: "historyAdds [] = []"
  by (simp add: historyAdds_def)

lemma historyAdds_Cons:
  "historyAdds (c # cs) = (case c of HistoryAddCall b \<Rightarrow> [b] | _ \<Rightarrow> []) @ historyAdds cs"
  by (simp add: historyAdds_def)

lemma historyToAddLoop_append:
  "historyToAddLoop (xs @ ys) acc s =
     (case historyToAddLoop xs acc s of
        (Inl err, s1) \<Rightarrow> (Inl err, s1)
      | (Inr acc1, s1) \<Rightarrow> historyToAddLoop ys acc1 s1)"
  by (induction xs arbitrary: acc s) (auto split: sum.splits prod.splits)

lemma historyToAddLoop_subseq:
  "historyToAddLoop xs acc s = (Inr b, s') \<Longrightarrow> \<exists>zs. subseq zs xs \<and> b = acc @ zs"
proof (induction xs arbitrary: acc s)
  case Nil
  then show ?case by simp
next
  case (Cons x xs)
  from Cons.prems consider
    (skip) s1 where "historyToAddLoop xs acc s1 = (Inr b, s')"
    | (keep) s1 where "historyToAddLoop xs (acc @ [x]) s1 = (Inr b, s')"
    by (auto split: sum.splits prod.splits if_splits)
  then show ?case
  proof cases
    case skip
    from Cons.IH[OF this] obtain zs where "subseq zs xs" "b = acc @ zs" by blast
    then have "subseq zs (x # xs) \<and> b = acc @ zs" by (simp add: list_emb_Cons)
    then show ?thesis by blast
  next
    case keep
    from Cons.IH[OF this] obtain zs where "subseq zs xs" "b = (acc @ [x]) @ zs" by blast
    then have "subseq (x # zs) (x # xs) \<and> b = acc @ x # zs" by simp
    then show ?thesis by blast
  qed
qed

lemma historyToAddLoop_historyAdds:
  "historyAdds (calls (snd (historyToAddLoop xs acc s))) = historyAdds (calls s)"
proof (induction xs arbitrary: acc s)
  case Nil
  then show ?case by simp
next
  case (Cons x xs)
  show ?case
    by (auto simp add: Cons.IH historyAdds_Cons split: sum.splits prod.splits dest!: invokeD)
qed

lemma historyToRemoveLoop_historyAdds:
  "historyAdds (calls (snd (historyToRemoveLoop xs acc s))) = historyAdds (calls s)"
proof (induction xs arbitrary: acc s)
  case Nil
  then show ?case by simp
next
  case (Cons x xs)
  show ?case
    by (auto simp add: Cons.IH historyAdds_Cons split: sum.splits prod.splits dest!: invokeD)
qed

lemma syncRatingsRemove_historyAdds:
  "historyAdds (calls (snd (syncRatingsRemove toRemove s))) = historyAdds (calls s)"
proof (cases "length toRemove > 0")
  case False
  then show ?thesis by (simp add: syncRatingsRemove_def)
next
  case True
  obtain r s1 where
    inv: "invoke (RatingsRemoveCall toRemove) (RatingsRemove (traktClient s) toRemove) s = (r, s1)"
    by (cases "invoke (RatingsRemoveCall toRemove) (RatingsRemove (traktClient s) toRemove) s")
  have h1: "historyAdds (calls s1) = historyAdds (calls s)"
    using invokeD[OF inv] by (simp add: historyAdds_Cons)
  show ?thesis
  proof (cases r)
    case (Some e)
    with True inv h1 show ?thesis
      by (simp add: syncRatingsRemove_def andThen_def wrapErr_def)
  next
    case None
    obtain res s2 where loop: "historyToRemoveLoop toRemove [] s1 = (res, s2)"
      by (cases "historyToRemoveLoop toRemove [] s1")
    have h2: "historyAdds (calls s2) = historyAdds (calls s)"
      using historyToRemoveLoop_historyAdds[of toRemove "[]" s1] loop h1 by simp
    show ?thesis
      using True inv None loop h2
      by (auto simp add: syncRatingsRemove_def andThen_def wrapErr_def historyAdds_Cons
          split: sum.splits prod.splits option.splits dest!: invokeD)
  qed
qed

lemma syncRatingsUpdate_historyAdds:
  "historyAdds (calls (snd (syncRatingsUpdate utc s))) = historyAdds (calls s)"
  by (auto simp add: syncRatingsUpdate_def Let_def wrapErr_def historyAdds_Cons
      split: prod.splits option.splits dest!: invokeD)

lemma syncRatings_historyAdds:
  "historyAdds (calls (snd (syncRatings utc s))) =
     historyAdds (calls (snd (syncRatingsAdd (diff_add (Difference utc (user_ratings s))) s)))"
proof (cases "syncRatingsAdd (diff_add (Difference utc (user_ratings s))) s")
  case (Pair r s1)
  show ?thesis
  proof (cases r)
    case (Some e)
    with Pair show ?thesis by (simp add: syncRatings_def Let_def andThen_def)
  next
    case None
    show ?thesis
    proof (cases "syncRatingsRemove (diff_remove (Difference utc (user_ratings s))) s1")
      case inner: (Pair r2 s2)
      have h2: "historyAdds (calls s2) = historyAdds (calls s1)"
        using syncRatingsRemove_historyAdds[of "diff_remove (Difference utc (user_ratings s))" s1]
          inner by simp
      show ?thesis
        using Pair None inner h2 syncRatingsUpdate_historyAdds[of utc s2]
        by (cases r2) (simp_all add: syncRatings_def Let_def andThen_def)
    qed
  qed
qed

text \<open>
  C3. Let \<open>x\<close> be an item of the ratings toAdd, \<open>xs\<close> the items before it and \<open>ys\<close>
  the items after it. Suppose the rating-add call has succeeded, the loop has passed
  \<open>xs\<close> and collected \<open>batch1\<close> from them, and the history query for the type and the
  identifier of \<open>x\<close> returns a non-empty history. Then the loop goes on with \<open>ys\<close> and the
  same \<open>batch1\<close>: \<open>x\<close> is not collected. The whole rating reconciliation issues either no
  history-add call, or exactly one, whose batch is not empty and consists of \<open>batch1\<close>
  (items of \<open>xs\<close>) followed by items of \<open>ys\<close>.
\<close>

theorem history_dedup:
  assumes split: "diff_add (Difference utc (user_ratings s)) = xs @ x # ys"
    and added: "invoke (RatingsAddCall (xs @ x # ys))
                  (RatingsAdd (traktClient s) (xs @ x # ys)) s = (None, s0)"
    and before: "historyToAddLoop xs [] s0 = (Inr batch1, s1)"
    and key: "GetItemId x = Inr i"
    and query: "invoke (HistoryGetCall (Type x) i)
                  (HistoryGet (traktClient s1) (Type x) i) s1 = (Inr history, s2)"
    and nonempty: "length history > 0"
  shows "subseq batch1 xs \<and>
         historyToAddLoop (xs @ x # ys) [] s0 = historyToAddLoop ys batch1 s2 \<and>
         (\<exists>zs. subseq zs ys \<and>
            (historyAdds (calls (snd (syncRatings utc s))) = historyAdds (calls s) \<or>
             batch1 @ zs \<noteq> [] \<and>
             historyAdds (calls (snd (syncRatings utc s))) =
               historyAdds (calls s) @ [batch1 @ zs]))"
proof -
  let ?toAdd = "xs @ x # ys"
  have sub1: "subseq batch1 xs"
    using historyToAddLoop_subseq[OF before] by simp
  have step: "historyToAddLoop (x # ys) batch1 s1 = historyToAddLoop ys batch1 s2"
    using key query nonempty by simp
  have loop: "historyToAddLoop ?toAdd [] s0 = historyToAddLoop ys batch1 s2"
    using before step by (simp add: historyToAddLoop_append)
  obtain res s3 where rest: "historyToAddLoop ys batch1 s2 = (res, s3)"
    by (cases "historyToAddLoop ys batch1 s2")
  have h0: "historyAdds (calls s0) = historyAdds (calls s)"
    using invokeD[OF added] by (simp add: historyAdds_Cons)
  have h3: "historyAdds (calls s3) = historyAdds (calls s)"
    using historyToAddLoop_historyAdds[of ?toAdd "[]" s0] loop rest h0 by simp
  have whole: "historyAdds (calls (snd (syncRatings utc s))) =
      historyAdds (calls (snd (syncRatingsAdd ?toAdd s)))"
    using syncRatings_historyAdds[of utc s] by (simp add: split)
  have add: "syncRatingsAdd ?toAdd s =
      (case res of
         Inl err \<Rightarrow> (Some err, s3)
       | Inr historyToAdd \<Rightarrow>
           if length historyToAdd > 0
           then wrapErr ''failure adding trakt history''
                  (invoke (HistoryAddCall historyToAdd)
                     (HistoryAdd (traktClient s3) historyToAdd) s3)
           else (None, s3))"
    using added loop rest by (simp add: syncRatingsAdd_def andThen_def wrapErr_def)
  show ?thesis
  proof (cases res)
    case (Inl err)
    with add h3 whole have "historyAdds (calls (snd (syncRatings utc s))) = historyAdds (calls s)"
      by simp
    then have "subseq [] ys \<and>
        (historyAdds (calls (snd (syncRatings utc s))) = historyAdds (calls s) \<or>
         batch1 @ [] \<noteq> [] \<and>
         historyAdds (calls (snd (syncRatings utc s))) = historyAdds (calls s) @ [batch1 @ []])"
      by simp
    with sub1 loop show ?thesis by blast
  next
    case (Inr b)
    with rest have "historyToAddLoop ys batch1 s2 = (Inr b, s3)" by simp
    from historyToAddLoop_subseq[OF this] obtain zs where
      zs: "subseq zs ys" "b = batch1 @ zs" by blast
    have "historyAdds (calls (snd (syncRatings utc s))) = historyAdds (calls s) \<or>
         batch1 @ zs \<noteq> [] \<and>
         historyAdds (calls (snd (syncRatings utc s))) = historyAdds (calls s) @ [batch1 @ zs]"
    proof (cases "b = []")
      case True
      with add Inr h3 whole show ?thesis by simp
    next
      case False
      obtain r s4 where
        inv: "invoke (HistoryAddCall b) (HistoryAdd (traktClient s3) b) s3 = (r, s4)"
        by (cases "invoke (HistoryAddCall b) (HistoryAdd (traktClient s3) b) s3")
      have "historyAdds (calls s4) = historyAdds (calls s) @ [b]"
        using invokeD[OF inv] h3 by (simp add: historyAdds_Cons)
      moreover have "snd (syncRatingsAdd ?toAdd s) = s4"
        using add Inr False inv by (simp add: wrapErr_def split: option.splits)
      ultimately show ?thesis
        using whole False zs(2) by simp
    qed
    with zs(1) sub1 loop show ?thesis by blast
  qed
qed

theorem history_dedup_witness:
  "diff_add (Difference exampleUtc (user_ratings exampleRated)) =
     [] @ traktItemOf exampleUtc (rated ''tt2'' 7) # [traktItemOf exampleUtc (rated ''tt3'' 5)]
   \<and> GetItemId (traktItemOf exampleUtc (rated ''tt2'' 7)) = Inr ''tt2''
   \<and> fst (HistoryGet exampleTraktClient (Type (traktItemOf exampleUtc (rated ''tt2'' 7)))
        ''tt2'' ()) = Inr [mirrorMovie ''tt2'' 0]
   \<and> fst (historyToAddLoop
        [traktItemOf exampleUtc (rated ''tt2'' 7), traktItemOf exampleUtc (rated ''tt3'' 5)] []
        (exampleRated\<lparr>calls :=
           [RatingsAddCall [traktItemOf exampleUtc (rated ''tt2'' 7),
                            traktItemOf exampleUtc (rated ''tt3'' 5)]]\<rparr>)) =
      Inr [traktItemOf exampleUtc (rated ''tt3'' 5)]
   \<and> historyAdds (calls (snd (syncRatings exampleUtc exampleRated))) =
      [[traktItemOf exampleUtc (rated ''tt3'' 5)]]"
proof -
  let ?x = "traktItemOf exampleUtc (rated ''tt2'' 7)"
  let ?y = "traktItemOf exampleUtc (rated ''tt3'' 5)"
  let ?s0 = "exampleRated\<lparr>calls := [RatingsAddCall [?x, ?y]]\<rparr>"
  let ?s2 = "exampleRated\<lparr>calls := [RatingsAddCall [?x, ?y],
                                      HistoryGetCall (Type ?x) ''tt2'']\<rparr>"
  have split: "diff_add (Difference exampleUtc (user_ratings exampleRated)) = [] @ ?x # [?y]"
    by (simp add: exampleRated_def exampleRatings_def emptyDataPair_def rated_def mirrorMovie_def
        Difference_def mirrorKeys_def itemKey_def GetItemId_def)
  have tc: "traktClient exampleRated = exampleTraktClient"
    by (simp add: exampleRated_def exampleSyncer_def)
  have added: "invoke (RatingsAddCall ([] @ ?x # [?y]))
      (RatingsAdd (traktClient exampleRated) ([] @ ?x # [?y])) exampleRated = (None, ?s0)"
    by (simp add: invoke_def exampleTraktClient_def exampleRated_def exampleSyncer_def)
  have before: "historyToAddLoop [] [] ?s0 = (Inr [], ?s0)"
    by simp
  have key: "GetItemId ?x = Inr ''tt2''"
    by (simp add: GetItemId_def traktItemOf_def rated_def)
  have query: "invoke (HistoryGetCall (Type ?x) ''tt2'')
      (HistoryGet (traktClient ?s0) (Type ?x) ''tt2'') ?s0 = (Inr [mirrorMovie ''tt2'' 0], ?s2)"
    by (simp add: invoke_def exampleTraktClient_def exampleRated_def exampleSyncer_def)
  have nonempty: "length [mirrorMovie ''tt2'' 0] > 0"
    by simp
  have hist: "fst (HistoryGet exampleTraktClient (Type ?x) ''tt2'' ()) = Inr [mirrorMovie ''tt2'' 0]"
    by (simp add: exampleTraktClient_def)
  note t = history_dedup[OF split added before key query nonempty]
  from t have loop: "historyToAddLoop ([] @ ?x # [?y]) [] ?s0 = historyToAddLoop [?y] [] ?s2"
    by blast
  have "fst (historyToAddLoop [?y] [] ?s2) = Inr [?y]"
    by (simp add: GetItemId_def traktItemOf_def rated_def invoke_def tc exampleTraktClient_def
        TraktItemTypeMovie_def)
  with loop have looped: "fst (historyToAddLoop [?x, ?y] [] ?s0) = Inr [?y]"
    by simp
  have calls: "historyAdds (calls (snd (syncRatings exampleUtc exampleRated))) = [[?y]]"
    by (simp add: exampleRated_def exampleRatings_def example_defs ratings_defs
        historyAdds_Cons)
  from split key hist looped calls show ?thesis
    by blast
qed

section \<open>Cleanup of the explicit identifiers\<close>

lemma dedupFrom_set: "set (dedupFrom seen xs) = set xs - set seen"
  by (induction xs arbitrary: seen) auto

lemma dedupFrom_distinct: "distinct (dedupFrom seen xs)"
  by (induction xs arbitrary: seen) (auto simp add: dedupFrom_set)

lemma remdups_snoc: "remdups (ys @ [x]) = remdups (filter (\<lambda>y. y \<noteq> x) ys) @ [x]"
  by (induction ys) auto

lemma dedupFrom_remdups:
  "dedupFrom seen xs = rev (remdups (rev (filter (\<lambda>x. x \<notin> set seen) xs)))"
proof (induction xs arbitrary: seen)
  case Nil
  then show ?case by simp
next
  case (Cons x xs)
  show ?case
  proof (cases "x \<in> set seen")
    case True
    then show ?thesis by (simp add: Cons.IH)
  next
    case False
    let ?F = "filter (\<lambda>y. y \<notin> set seen) xs"
    have "rev (remdups (rev (filter (\<lambda>y. y \<notin> set seen) (x # xs)))) =
          rev (remdups (rev ?F @ [x]))"
      using False by simp
    also have "\<dots> = rev (remdups (filter (\<lambda>y. y \<noteq> x) (rev ?F)) @ [x])"
      by (simp only: remdups_snoc)
    also have "\<dots> = x # rev (remdups (rev (filter (\<lambda>y. y \<noteq> x) ?F)))"
      by (simp add: rev_filter)
    also have "filter (\<lambda>y. y \<noteq> x) ?F = filter (\<lambda>y. y \<notin> set (x # seen)) xs"
      by (induction xs) auto
    also have "x # rev (remdups (rev (filter (\<lambda>y. y \<notin> set (x # seen)) xs))) =
               dedupFrom seen (x # xs)"
      using False by (simp only: Cons.IH[symmetric] dedupFrom.simps if_False)
    finally show ?thesis by simp
  qed
qed

lemma cleanupLoop_fetchEach:
  fixes s :: "'w Syncer"
  shows "dom u = set seen \<Longrightarrow>
     cleanupLoop fmt ps u kept s = fetchEach fmt (dedupFrom seen (map ImdbListId ps)) kept s"
proof (induction ps arbitrary: u seen kept s)
  case Nil
  then show ?case by simp
next
  case (Cons p ps)
  show ?case
  proof (cases "u (ImdbListId p)")
    case (Some b)
    then have "ImdbListId p \<in> set seen" using Cons.prems by auto
    with Some Cons.IH[OF Cons.prems] show ?thesis by simp
  next
    case None
    then have notseen: "ImdbListId p \<notin> set seen" using Cons.prems by auto
    have dom': "dom (u(ImdbListId p \<mapsto> True)) = set (ImdbListId p # seen)"
      using Cons.prems by simp
    have ih: "cleanupLoop fmt ps (u(ImdbListId p \<mapsto> True)) kept' s' =
        fetchEach fmt (dedupFrom (ImdbListId p # seen) (map ImdbListId ps)) kept' s'"
      for kept' and s' :: "'w Syncer"
      by (rule Cons.IH[OF dom'])
    show ?thesis
      using None notseen
      by (simp add: ih split: prod.splits sum.splits)
  qed
qed

lemma cleanupLists_by_dedup: "cleanupLists fmt s = cleanupByDedup fmt s"
  using cleanupLoop_fetchEach[of Map.empty "[]" fmt "user_lists s" "[]" s]
  by (simp add: cleanupLists_def cleanupByDedup_def firstOccurrences_def)

lemma fetchEach_calls:
  "\<exists>n. calls (snd (fetchEach fmt ids kept s)) = calls s @ map ImdbListItemsGetCall (take n ids)"
proof (induction ids arbitrary: kept s)
  case Nil
  then show ?case by simp
next
  case (Cons i ids)
  obtain r s1 where
    inv: "invoke (ImdbListItemsGetCall i) (ImdbListItemsGet (imdbClient s) i) s = (r, s1)"
    by (cases "invoke (ImdbListItemsGetCall i) (ImdbListItemsGet (imdbClient s) i) s")
  note c1 = invokeD[OF inv]
  have stop: "\<exists>n. calls s1 = calls s @ map ImdbListItemsGetCall (take n (i # ids))"
    using c1 by (intro exI[where x = "Suc 0"]) simp
  have go: "\<exists>n. calls (snd (fetchEach fmt ids kept' s1)) =
                 calls s @ map ImdbListItemsGetCall (take n (i # ids))" for kept'
  proof -
    from Cons.IH[of kept' s1] obtain n where
      "calls (snd (fetchEach fmt ids kept' s1)) = calls s1 @ map ImdbListItemsGetCall (take n ids)"
      by blast
    then have "calls (snd (fetchEach fmt ids kept' s1)) =
        calls s @ map ImdbListItemsGetCall (take (Suc n) (i # ids))"
      using c1 by simp
    then show ?thesis by blast
  qed
  show ?case
    using inv stop go by (auto split: sum.splits prod.splits)
qed

lemma fetchEach_ok:
  "fetchEach fmt ids kept s = ((None, kept'), s') \<Longrightarrow>
     calls s' = calls s @ map ImdbListItemsGetCall ids \<and>
     (\<exists>ks. subseq ks ids \<and> map ImdbListId kept' = map ImdbListId kept @ ks)"
proof (induction ids arbitrary: kept s)
  case Nil
  then show ?case by auto
next
  case (Cons i ids)
  from Cons.prems consider
    (dropped) err s1 where
      "invoke (ImdbListItemsGetCall i) (ImdbListItemsGet (imdbClient s) i) s = (Inl err, s1)"
      "fetchEach fmt ids kept s1 = ((None, kept'), s')"
    | (found) n items s1 where
      "invoke (ImdbListItemsGetCall i) (ImdbListItemsGet (imdbClient s) i) s = (Inr (n, items), s1)"
      "fetchEach fmt ids
         (kept @ [\<lparr>ImdbList = items, ImdbListId = i, ImdbListName = n, TraktList = [],
                   TraktListId = fmt n, IsWatchlist = False\<rparr>]) s1 = ((None, kept'), s')"
    by (auto split: sum.splits prod.splits if_splits)
  then show ?case
  proof cases
    case dropped
    from Cons.IH[OF dropped(2)] obtain ks where
      "calls s' = calls s1 @ map ImdbListItemsGetCall ids" "subseq ks ids"
      "map ImdbListId kept' = map ImdbListId kept @ ks"
      by blast
    with invokeD[OF dropped(1)] have
      "calls s' = calls s @ map ImdbListItemsGetCall (i # ids) \<and>
       subseq ks (i # ids) \<and> map ImdbListId kept' = map ImdbListId kept @ ks"
      by (simp add: list_emb_Cons)
    then show ?thesis by blast
  next
    case found
    from Cons.IH[OF found(2)] obtain ks where
      "calls s' = calls s1 @ map ImdbListItemsGetCall ids" "subseq ks ids"
      "map ImdbListId kept' = (map ImdbListId kept @ [i]) @ ks"
      by auto
    with invokeD[OF found(1)] have
      "calls s' = calls s @ map ImdbListItemsGetCall (i # ids) \<and>
       subseq (i # ks) (i # ids) \<and> map ImdbListId kept' = map ImdbListId kept @ i # ks"
      by simp
    then show ?thesis by blast
  qed
qed

lemma fetchEach_frame:
  "fetchEach fmt ids kept s = ((r, kept'), s') \<Longrightarrow> user_lists s' = user_lists s"
proof (induction ids arbitrary: kept s)
  case Nil
  then show ?case by simp
next
  case (Cons i ids)
  show ?case
    using Cons.prems
    by (auto split: sum.splits prod.splits if_splits dest!: invokeD Cons.IH)
qed

lemma subseq_distinct: "subseq xs ys \<Longrightarrow> distinct ys \<Longrightarrow> distinct xs"
  using subseqs_distinctD[of xs ys] by simp

lemma cleanupLists_calls:
  "\<exists>n. calls (snd (cleanupLists fmt s)) =
        calls s @ map ImdbListItemsGetCall
                    (take n (firstOccurrences (map ImdbListId (user_lists s))))"
proof -
  let ?ids = "firstOccurrences (map ImdbListId (user_lists s))"
  from fetchEach_calls[of fmt ?ids "[]" s] obtain n where
    "calls (snd (fetchEach fmt ?ids [] s)) = calls s @ map ImdbListItemsGetCall (take n ?ids)"
    by blast
  moreover obtain r kept s1 where "fetchEach fmt ?ids [] s = ((r, kept), s1)"
    by (cases "fetchEach fmt ?ids [] s") auto
  ultimately have "calls (snd (cleanupLists fmt s)) =
      calls s @ map ImdbListItemsGetCall (take n ?ids)"
    by (cases r) (simp_all add: cleanupLists_by_dedup cleanupByDedup_def)
  then show ?thesis by blast
qed

lemma cleanupLists_ok_calls:
  assumes "fst (cleanupLists fmt s) = None"
  shows "calls (snd (cleanupLists fmt s)) =
           calls s @ map ImdbListItemsGetCall (firstOccurrences (map ImdbListId (user_lists s))) \<and>
         subseq (map ImdbListId (user_lists (snd (cleanupLists fmt s))))
           (firstOccurrences (map ImdbListId (user_lists s)))"
proof -
  let ?ids = "firstOccurrences (map ImdbListId (user_lists s))"
  obtain r kept s1 where f: "fetchEach fmt ?ids [] s = ((r, kept), s1)"
    by (cases "fetchEach fmt ?ids [] s") auto
  with assms have r: "r = None"
    by (simp add: cleanupLists_by_dedup cleanupByDedup_def split: option.splits)
  from fetchEach_ok[OF f[unfolded r]] obtain ks where
    "calls s1 = calls s @ map ImdbListItemsGetCall ?ids" "subseq ks ?ids"
    "map ImdbListId kept = ks"
    by auto
  then show ?thesis
    using f r by (simp add: cleanupLists_by_dedup cleanupByDedup_def)
qed

lemma cleanupLists_failed:
  assumes "fst (cleanupLists fmt s) \<noteq> None"
  shows "user_lists (snd (cleanupLists fmt s)) = user_lists s"
proof -
  let ?ids = "firstOccurrences (map ImdbListId (user_lists s))"
  obtain r kept s1 where f: "fetchEach fmt ?ids [] s = ((r, kept), s1)"
    by (cases "fetchEach fmt ?ids [] s") auto
  with assms fetchEach_frame[OF f] show ?thesis
    by (auto simp add: cleanupLists_by_dedup cleanupByDedup_def split: option.splits)
qed

lemma cleanupLists_failed_Run:
  assumes "cleanupLists fmt s = (Some e, s')" and "user_lists s \<noteq> []"
  shows "Run utc fmt s =
     (Some (''failure hydrating imdb client'', Wrapped ''failure cleaning up imdb lists'' e), s')"
  using assms
  by (simp add: Run_def hydrate_def hydrateSource_def andThen_def wrapErr_def)

text \<open>
  C6. cleanupLists is the spec's cleanup: deduplicate the identifiers, first occurrence
  first, then fetch each one in turn, dropping a not-found identifier, failing on any
  other error and building one pairing for a found identifier. The deduplicated
  identifiers are distinct and are the identifiers of the input. Whatever the outcome,
  the calls issued are fetches of a leading part of the deduplicated identifiers, so no
  identifier is fetched twice. When cleanup succeeds every deduplicated identifier has
  been fetched once, in order, and the pairings carry distinct identifiers, in the order
  of the deduplicated ones. When it fails, \<^verbatim>\<open>user.lists\<close> is unchanged and the run ends
  with that error.
\<close>

theorem cleanupLists_dedup:
  "cleanupLists fmt s = cleanupByDedup fmt s
   \<and> firstOccurrences (map ImdbListId (user_lists s)) =
       rev (remdups (rev (map ImdbListId (user_lists s))))
   \<and> distinct (firstOccurrences (map ImdbListId (user_lists s)))
   \<and> set (firstOccurrences (map ImdbListId (user_lists s))) = set (map ImdbListId (user_lists s))
   \<and> (\<exists>n. calls (snd (cleanupLists fmt s)) =
          calls s @ map ImdbListItemsGetCall
                      (take n (firstOccurrences (map ImdbListId (user_lists s)))))
   \<and> (fst (cleanupLists fmt s) = None \<longrightarrow>
        calls (snd (cleanupLists fmt s)) =
          calls s @ map ImdbListItemsGetCall (firstOccurrences (map ImdbListId (user_lists s))) \<and>
        subseq (map ImdbListId (user_lists (snd (cleanupLists fmt s))))
          (firstOccurrences (map ImdbListId (user_lists s))) \<and>
        distinct (map ImdbListId (user_lists (snd (cleanupLists fmt s)))))
   \<and> (fst (cleanupLists fmt s) \<noteq> None \<longrightarrow>
        user_lists (snd (cleanupLists fmt s)) = user_lists s \<and>
        (user_lists s \<noteq> [] \<longrightarrow>
           Run utc fmt s =
             (map_option (\<lambda>e. (''failure hydrating imdb client'',
                                 Wrapped ''failure cleaning up imdb lists'' e))
                (fst (cleanupLists fmt s)),
              snd (cleanupLists fmt s))))"
proof -
  let ?ids = "map ImdbListId (user_lists s)"
  have first: "firstOccurrences ?ids = rev (remdups (rev ?ids))"
    by (simp add: firstOccurrences_def dedupFrom_remdups)
  have dist: "distinct (firstOccurrences ?ids)"
    by (simp add: firstOccurrences_def dedupFrom_distinct)
  have same: "set (firstOccurrences ?ids) = set ?ids"
    by (simp add: firstOccurrences_def dedupFrom_set)
  have ok: "fst (cleanupLists fmt s) = None \<longrightarrow>
        calls (snd (cleanupLists fmt s)) =
          calls s @ map ImdbListItemsGetCall (firstOccurrences ?ids) \<and>
        subseq (map ImdbListId (user_lists (snd (cleanupLists fmt s)))) (firstOccurrences ?ids) \<and>
        distinct (map ImdbListId (user_lists (snd (cleanupLists fmt s))))"
    using cleanupLists_ok_calls[of fmt s] dist subseq_distinct by blast
  have failed: "fst (cleanupLists fmt s) \<noteq> None \<longrightarrow>
        user_lists (snd (cleanupLists fmt s)) = user_lists s \<and>
        (user_lists s \<noteq> [] \<longrightarrow>
           Run utc fmt s =
             (map_option (\<lambda>e. (''failure hydrating imdb client'',
                                 Wrapped ''failure cleaning up imdb lists'' e))
                (fst (cleanupLists fmt s)),
              snd (cleanupLists fmt s)))"
  proof (intro impI conjI)
    assume "fst (cleanupLists fmt s) \<noteq> None"
    then show "user_lists (snd (cleanupLists fmt s)) = user_lists s"
      by (rule cleanupLists_failed)
  next
    assume f: "fst (cleanupLists fmt s) \<noteq> None" and ne: "user_lists s \<noteq> []"
    from f obtain e where "cleanupLists fmt s = (Some e, snd (cleanupLists fmt s))"
      by (cases "cleanupLists fmt s") auto
    from cleanupLists_failed_Run[OF this ne, of utc] this
    show "Run utc fmt s =
             (map_option (\<lambda>e. (''failure hydrating imdb client'',
                                 Wrapped ''failure cleaning up imdb lists'' e))
                (fst (cleanupLists fmt s)),
              snd (cleanupLists fmt s))"
      by (metis fst_conv option.simps(9))
  qed
  from cleanupLists_by_dedup[of fmt s] first dist same cleanupLists_calls[of fmt s] ok failed
  show ?thesis by blast
qed

theorem cleanupLists_dedup_witness:
  "fst (cleanupLists exampleFormat (exampleSyncer [''lsA'', ''lsA'', ''lsB''])) = None
   \<and> calls (snd (cleanupLists exampleFormat (exampleSyncer [''lsA'', ''lsA'', ''lsB'']))) =
        [ImdbListItemsGetCall ''lsA'', ImdbListItemsGetCall ''lsB'']
   \<and> map ImdbListId
        (user_lists (snd (cleanupLists exampleFormat (exampleSyncer [''lsA'', ''lsA'', ''lsB''])))) =
        [''lsA'', ''lsB'']
   \<and> fst (cleanupLists exampleFormat (exampleSyncer [''lsA'', ''ls404'', ''lsB'', ''ls404''])) = None
   \<and> calls (snd (cleanupLists exampleFormat
        (exampleSyncer [''lsA'', ''ls404'', ''lsB'', ''ls404'']))) =
        [ImdbListItemsGetCall ''lsA'', ImdbListItemsGetCall ''ls404'', ImdbListItemsGetCall ''lsB'']
   \<and> map ImdbListId (user_lists (snd (cleanupLists exampleFormat
        (exampleSyncer [''lsA'', ''ls404'', ''lsB'', ''ls404''])))) = [''lsA'', ''lsB'']
   \<and> Run exampleUtc exampleFormat
        ((exampleSyncer [''lsA'', ''lsB''])\<lparr>imdbClient := exampleImdbFetchFails\<rparr>) =
      (Some (''failure hydrating imdb client'',
             Wrapped ''failure cleaning up imdb lists''
               (Wrapped ''unexpected error while cleaning up user provided imdb lists''
                  (ApiError 500))),
       (exampleSyncer [''lsA'', ''lsB''])
         \<lparr>imdbClient := exampleImdbFetchFails, calls := [ImdbListItemsGetCall ''lsA'']\<rparr>)"
proof -
  let ?a = "exampleSyncer [''lsA'', ''lsA'', ''lsB'']"
  let ?b = "exampleSyncer [''lsA'', ''ls404'', ''lsB'', ''ls404'']"
  let ?c = "(exampleSyncer [''lsA'', ''lsB''])\<lparr>imdbClient := exampleImdbFetchFails\<rparr>"
  have ida: "map ImdbListId (user_lists ?a) = [''lsA'', ''lsA'', ''lsB'']"
    and idb: "map ImdbListId (user_lists ?b) = [''lsA'', ''ls404'', ''lsB'', ''ls404'']"
    and nec: "user_lists ?c \<noteq> []"
    and ca: "calls ?a = []" and cb: "calls ?b = []"
    by (simp_all add: exampleSyncer_def emptyDataPair_def ReplaceAll_space_def)
  have oka: "fst (cleanupLists exampleFormat ?a) = None"
    and okb: "fst (cleanupLists exampleFormat ?b) = None"
    by (simp_all add: example_defs step_defs)
  have outa: "map ImdbListId (user_lists (snd (cleanupLists exampleFormat ?a))) = [''lsA'', ''lsB'']"
    and outb: "map ImdbListId (user_lists (snd (cleanupLists exampleFormat ?b))) = [''lsA'', ''lsB'']"
    by (simp_all add: example_defs step_defs)
  have failc: "cleanupLists exampleFormat ?c =
      (Some (Wrapped ''unexpected error while cleaning up user provided imdb lists'' (ApiError 500)),
       (exampleSyncer [''lsA'', ''lsB''])
         \<lparr>imdbClient := exampleImdbFetchFails, calls := [ImdbListItemsGetCall ''lsA'']\<rparr>)"
    by (simp add: exampleImdbFetchFails_def example_defs step_defs)
  from cleanupLists_dedup[of exampleFormat ?a exampleUtc] oka
  have "calls (snd (cleanupLists exampleFormat ?a)) =
      calls ?a @ map ImdbListItemsGetCall (firstOccurrences (map ImdbListId (user_lists ?a)))"
    by blast
  then have callsa: "calls (snd (cleanupLists exampleFormat ?a)) =
      [ImdbListItemsGetCall ''lsA'', ImdbListItemsGetCall ''lsB'']"
    unfolding ida ca by (simp add: firstOccurrences_def)
  from cleanupLists_dedup[of exampleFormat ?b exampleUtc] okb
  have "calls (snd (cleanupLists exampleFormat ?b)) =
      calls ?b @ map ImdbListItemsGetCall (firstOccurrences (map ImdbListId (user_lists ?b)))"
    by blast
  then have callsb: "calls (snd (cleanupLists exampleFormat ?b)) =
      [ImdbListItemsGetCall ''lsA'', ImdbListItemsGetCall ''ls404'', ImdbListItemsGetCall ''lsB'']"
    unfolding idb cb by (simp add: firstOccurrences_def)
  have "fst (cleanupLists exampleFormat ?c) \<noteq> None"
    by (simp add: failc)
  with cleanupLists_dedup[of exampleFormat ?c exampleUtc] nec
  have "Run exampleUtc exampleFormat ?c =
      (map_option (\<lambda>e. (''failure hydrating imdb client'',
                          Wrapped ''failure cleaning up imdb lists'' e))
         (fst (cleanupLists exampleFormat ?c)),
       snd (cleanupLists exampleFormat ?c))"
    by blast
  then have runc: "Run exampleUtc exampleFormat ?c =
      (Some (''failure hydrating imdb client'',
             Wrapped ''failure cleaning up imdb lists''
               (Wrapped ''unexpected error while cleaning up user provided imdb lists''
                  (ApiError 500))),
       (exampleSyncer [''lsA'', ''lsB''])
         \<lparr>imdbClient := exampleImdbFetchFails, calls := [ImdbListItemsGetCall ''lsA'']\<rparr>)"
    unfolding failc by simp
  from oka okb outa outb callsa callsb runc show ?thesis by blast
qed

section \<open>A mirror list that does not exist yet\<close>





end
